theory Spec2Isabelle
  imports Complex_Main "HOL-Library.Word" "HOL-Library.Log_Nat" "HOL-Library.Sublist"
begin

section \<open>Strings and the two regular expressions of the quality scorer\<close>

text \<open>
  A JavaScript string is modelled as a \<^typ>\<open>string\<close>: one \<^typ>\<open>char\<close> per code unit, for
  code units below 256. \<open>text.length\<close> is \<^const>\<open>length\<close>. The character classes are those of
  the regular expressions of \<open>ocrService.js\<close>: \<open>\d\<close> is \<open>[0-9]\<close>, \<open>\w\<close> is
  \<open>[A-Za-z0-9_]\<close>, and \<open>\s\<close> (also what \<open>trim()\<close> strips) is the white space and line
  terminators below 256.
\<close>

definition isDigit :: "char \<Rightarrow> bool" where
  "isDigit c = (c \<in> set ''0123456789'')"

definition upperCaseLetters :: string where
  "upperCaseLetters = ''ABCDEFGHIJKLMNOPQRSTUVWXYZ''"

definition lowerCaseLetters :: string where
  "lowerCaseLetters = ''abcdefghijklmnopqrstuvwxyz''"

definition isWordChar :: "char \<Rightarrow> bool" where
  "isWordChar c = (c \<in> set (upperCaseLetters @ lowerCaseLetters @ ''0123456789_''))"

definition isSpace :: "char \<Rightarrow> bool" where
  "isSpace c =
     (c \<in> set [CHR '' '', CHR 0x09, CHR 0x0A, CHR 0x0B, CHR 0x0C, CHR 0x0D, CHR 0xA0])"

text \<open>
  \<open>toLowerCase()\<close> on the letters A to Z; the other letters are left as they are. The
  service lowers a text only to search it for the five ASCII terms of \<open>medicalTerms\<close> and
  for the unit names, which no other letter below 256 can produce, and to print the status
  of an outlier, which is \<open>'High'\<close> or \<open>'Low'\<close>.
\<close>

definition toLowerCase :: "string \<Rightarrow> string" where
  "toLowerCase s =
     map (\<lambda>c. case map_of (zip upperCaseLetters lowerCaseLetters) c of
                 Some d \<Rightarrow> d
               | None \<Rightarrow> c) s"

definition trim :: "string \<Rightarrow> string" where
  "trim s = rev (dropWhile isSpace (rev (dropWhile isSpace s)))"

definition startsWith :: "string \<Rightarrow> string \<Rightarrow> bool" where
  "startsWith s t = (take (length t) s = t)"

text \<open>\<open>s.includes(t)\<close>: \<open>t\<close> starts at some position of \<open>s\<close>.\<close>

fun includesStr :: "string \<Rightarrow> string \<Rightarrow> bool" where
  "includesStr [] t = (t = [])"
| "includesStr (c # s) t = (startsWith (c # s) t \<or> includesStr s t)"

text \<open>
  \<open>(text.match(re) || []).length\<close> for a global regular expression \<open>re\<close> whose matches are
  never empty: the scan tries each position from left to right, and after a match of \<open>n\<close>
  characters resumes right behind it (\<open>skip\<close> counts the characters of the last match still
  to pass over). \<open>m s\<close> is the length of the match of \<open>re\<close> at the start of \<open>s\<close>, if any.
\<close>

fun countMatches :: "(string \<Rightarrow> nat option) \<Rightarrow> nat \<Rightarrow> string \<Rightarrow> nat" where
  "countMatches m skip [] = 0"
| "countMatches m skip (c # s) =
     (if 0 < skip then countMatches m (skip - 1) s
      else case m (c # s) of
             None \<Rightarrow> countMatches m 0 s
           | Some n \<Rightarrow> 1 + countMatches m (n - 1) s)"

definition unitNames :: "string list" where
  "unitNames = [''mg/dl'', ''mmol/l'', ''g/dl'', ''%'']"

text \<open>
  The match of \<open>/\d+\.?\d*\s*(mg\/dl|mmol\/l|g\/dl|%)/gi\<close> at the start of \<open>s\<close>. Every
  quantifier is greedy and is followed by a character outside its own class, so giving
  characters back never turns a failed match into a match: the longest runs decide.
  The flag \<open>i\<close> folds the letters A to Z only.
\<close>

definition matchUnitPattern :: "string \<Rightarrow> nat option" where
  "matchUnitPattern s =
     (let d1 = takeWhile isDigit s; r1 = dropWhile isDigit s in
      if d1 = [] then None
      else
        let dot = (if startsWith r1 ''.'' then 1 else 0);
            r2 = drop dot r1;
            d2 = takeWhile isDigit r2; r3 = dropWhile isDigit r2;
            sp = takeWhile isSpace r3; r4 = dropWhile isSpace r3
        in case find (startsWith (toLowerCase r4)) unitNames of
             None \<Rightarrow> None
           | Some u \<Rightarrow> Some (length d1 + dot + length d2 + length sp + length u))"

text \<open>The match of \<open>/\w+\s*[:\-]\s*\d+/g\<close> at the start of \<open>s\<close>, greedy in the same way.\<close>

definition matchTablePattern :: "string \<Rightarrow> nat option" where
  "matchTablePattern s =
     (let w = takeWhile isWordChar s; r1 = dropWhile isWordChar s in
      if w = [] then None
      else
        let sp1 = takeWhile isSpace r1; r2 = dropWhile isSpace r1 in
        if startsWith r2 '':'' \<or> startsWith r2 ''-'' then
          let r3 = drop 1 r2;
              sp2 = takeWhile isSpace r3; r4 = dropWhile isSpace r3;
              d = takeWhile isDigit r4
          in if d = [] then None
             else Some (length w + length sp1 + 1 + length sp2 + length d)
        else None)"

section \<open>JavaScript numbers\<close>

text \<open>
  A JavaScript number is an IEEE 754 double. A finite double is modelled by the real number
  it denotes, and an arithmetic operation by the exact operation followed by rounding to
  the nearest double, a tie going to the even significand: \<open>a * b\<close> is
  \<open>roundToDouble (a * b)\<close>, \<open>a + b\<close> is \<open>roundToDouble (a + b)\<close>, and the literal \<open>0.3\<close> is
  \<open>roundToDouble (3 / 10)\<close>. Comparisons are those of the reals.

  The positive doubles are the numbers \<open>m * 2 ^ k / 2 ^ 1074\<close> with \<open>m < 2 ^ 53\<close>, where
  \<open>k = 0\<close> unless \<open>2 ^ 52 \<le> m\<close>. \<open>roundPositive\<close> scales \<open>x\<close> by \<open>2 ^ 1074\<close>, drops the
  \<open>k\<close> bits that exceed 53, and rounds what is left to an integer.

  The exponent is not bounded from above: the model has no \<open>Infinity\<close> and no \<open>NaN\<close>, and
  \<open>-0\<close> is \<open>0\<close>, to which it compares equal. A double overflows from \<open>2 ^ 1024\<close> on, which
  no quality score does: the product of a double and \<open>0.4\<close> is below \<open>2 ^ 1023\<close>, and the
  other four components of a text of fewer than \<open>2 ^ 53\<close> characters are below \<open>2 ^ 57\<close>.
\<close>

definition roundHalfEven :: "real \<Rightarrow> int" where
  "roundHalfEven y =
     (let f = \<lfloor>y\<rfloor>; r = y - of_int f
      in if r < 1 / 2 then f else if 1 / 2 < r then f + 1 else if even f then f else f + 1)"

definition minExponent :: nat where
  "minExponent = 1074"

definition roundPositive :: "real \<Rightarrow> real" where
  "roundPositive x =
     (let s = x * 2 ^ minExponent; k = nat (bitlen \<lfloor>s\<rfloor> - 53)
      in of_int (roundHalfEven (s / 2 ^ k)) * 2 ^ k / 2 ^ minExponent)"

definition roundToDouble :: "real \<Rightarrow> real" where
  "roundToDouble x = (if x < 0 then - roundPositive (- x) else roundPositive x)"

definition jsTimes :: "real \<Rightarrow> real \<Rightarrow> real" where
  "jsTimes a b = roundToDouble (a * b)"

definition jsPlus :: "real \<Rightarrow> real \<Rightarrow> real" where
  "jsPlus a b = roundToDouble (a + b)"

section \<open>The quality score (\<open>calculateQualityScore\<close>)\<close>

definition medicalTerms :: "string list" where
  "medicalTerms =
     [''glucose'', ''cholesterol'', ''hemoglobin'', ''triglyceride'', ''creatinine'']"

record quality_metrics =
  charCount :: nat
  medicalTermCount :: nat
  unitPatterns :: nat
  tablePatterns :: nat

record score_breakdown =
  content :: real
  structure' :: real
  medicalContent :: real
  units :: real
  confidence :: real

record quality_score =
  total :: real
  breakdown :: score_breakdown
  metrics :: quality_metrics

text \<open>
  The weights are applied and the five components are added in double precision.
  \<open>Object.values(score).reduce((a, b) => a + b, 0)\<close> adds the components to \<open>0\<close> from left
  to right, in the order in which the object literal lists them.
\<close>

definition calculateQualityScore :: "string \<Rightarrow> real \<Rightarrow> quality_score" where
  "calculateQualityScore text_in conf =
     (let charCount = length text_in;
          medicalTermCount =
            length (filter (includesStr (toLowerCase text_in)) medicalTerms);
          unitPatterns = countMatches matchUnitPattern 0 text_in;
          tablePatterns = countMatches matchTablePattern 0 text_in;
          score =
            \<lparr> content = (if 100 < charCount then 50
                         else jsTimes (real charCount) (roundToDouble (3 / 10))),
              structure' = jsTimes (real tablePatterns) 8,
              medicalContent = jsTimes (real medicalTermCount) 15,
              units = jsTimes (real unitPatterns) 12,
              confidence = jsTimes conf (roundToDouble (4 / 10)) \<rparr>
      in \<lparr> total = foldl jsPlus 0 [content score, structure' score, medicalContent score,
                                    units score, confidence score],
           breakdown = score,
           metrics = \<lparr> charCount = charCount, medicalTermCount = medicalTermCount,
                       unitPatterns = unitPatterns, tablePatterns = tablePatterns \<rparr> \<rparr>)"

section \<open>The environment: clock, engines and collaborators\<close>

text \<open>
  A \<open>Buffer\<close> is a list of bytes, and an error is the message of the exception thrown
  (\<open>error.message\<close>).
\<close>

type_synonym buffer = "8 word list"

type_synonym error = string

text \<open>
  The image transforms of \<open>sharp\<close> that the OCR service builds: \<open>rotate(angle)\<close>, the
  resize, grayscale and normalize chain of the quick scan, and the \<open>process\<close> chains of the
  two entries of \<open>PREPROCESSING_METHODS\<close>. The three option objects passed to
  \<open>Tesseract.recognize\<close>: page segmentation \<open>AUTO_ONLY\<close> with engine mode \<open>DEFAULT\<close> (the
  first pass of \<open>deskewImage\<close>), \<open>AUTO_ONLY\<close> alone (the rotation probes and the quick
  scan), and \<open>AUTO\<close> with \<open>LSTM_ONLY\<close> and the character whitelist (the two variants).
\<close>

datatype sharp_op = Rotate nat | QuickScanPrep | HighQualityMedicalPrep | AdaptiveClahePrep

datatype ocr_settings = AutoOnlyDefaultEngine | AutoOnly | AutoLstmWhitelist

text \<open>
  A health parameter as the insights and the validation read it. \<open>value'\<close> is \<open>None\<close> for
  \<open>null\<close>, \<open>undefined\<close> and \<open>NaN\<close>.
\<close>

record health_parameter =
  name :: string
  value' :: "real option"
  unit' :: string
  normalRange :: string
  status :: string

record outlier =
  outlier_parameter :: string
  outlier_value :: "real option"
  outlier_normalRange :: string
  severity :: string
  concern :: string

record ai_insights =
  summary :: string
  outliers :: "outlier list"
  recommendations :: "string list"
  riskLevel :: string
  positiveFindings :: "string list"

text \<open>
  What \<open>extractWithGemini\<close> holds once the model has answered: the object read by
  \<open>JSON.parse\<close>, with its \<open>parameters\<close> and \<open>insights\<close> already passed through the
  element-wise sanitising maps of lines 134 to 178 of \<open>geminiService.js\<close>, which keep the
  number of parameters. The call of the model, the stripping of code fences, the parse and
  the check of the \<open>parameters\<close> array are one step of the environment, \<open>generateContent\<close>,
  which returns this object or the message of the exception raised on the way.
\<close>

record gemini_parsed =
  parsed_extractedText :: "string option"
  parsed_patientInfo :: "(string \<times> string) list option"
  parsed_healthParameters :: "health_parameter list"
  parsed_aiInsights :: ai_insights
  parsed_confidence :: "real option"

text \<open>The awaited calls of external capabilities, as the world records them.\<close>

datatype call =
    Sharp sharp_op buffer
  | TesseractRecognize ocr_settings buffer
  | PdfParse buffer
  | GeminiGenerate buffer string

text \<open>
  The environment fixes what every external capability answers and how long each awaited
  call takes. \<open>GEMINI_API_KEY\<close> is \<open>process.env.GEMINI_API_KEY\<close>. \<open>extractHealthParameters\<close>
  is the parameter parser of \<open>utils/parameterExtractor\<close>, a function of the text that may
  throw like any JavaScript function.
\<close>

record env =
  GEMINI_API_KEY :: "string option"
  generateContent :: "buffer \<Rightarrow> string \<Rightarrow> error + gemini_parsed"
  recognize :: "ocr_settings \<Rightarrow> buffer \<Rightarrow> error + string \<times> real"
  sharp :: "sharp_op \<Rightarrow> buffer \<Rightarrow> error + buffer"
  pdfParse :: "buffer \<Rightarrow> error + string"
  extractHealthParameters :: "string \<Rightarrow> error + health_parameter list"
  duration :: "call \<Rightarrow> nat"

text \<open>
  The world: the clock read by \<open>Date.now()\<close>, in milliseconds, and the awaited calls made
  so far, oldest first.
\<close>

record world =
  now :: nat
  calls :: "call list"

text \<open>
  An \<open>async\<close> function is a state transformer that ends with a value (\<open>Inr\<close>) or with a
  thrown error (\<open>Inl\<close>). \<open>bindIO\<close> is sequencing, \<open>catchIO\<close> is \<open>try { } catch (error) { }\<close>,
  \<open>liftE\<close> runs a synchronous call that may throw, and \<open>await\<close> records the call and
  advances the clock by its duration.
\<close>

type_synonym ('s, 'a) io = "'s \<Rightarrow> (error + 'a) \<times> 's"

definition returnIO :: "'a \<Rightarrow> ('s, 'a) io" where
  "returnIO x = (\<lambda>s. (Inr x, s))"

definition throwIO :: "error \<Rightarrow> ('s, 'a) io" where
  "throwIO e = (\<lambda>s. (Inl e, s))"

definition bindIO :: "('s, 'a) io \<Rightarrow> ('a \<Rightarrow> ('s, 'b) io) \<Rightarrow> ('s, 'b) io" where
  "bindIO m f = (\<lambda>s. case m s of (Inl e, s') \<Rightarrow> (Inl e, s') | (Inr x, s') \<Rightarrow> f x s')"

definition catchIO :: "('s, 'a) io \<Rightarrow> (error \<Rightarrow> ('s, 'a) io) \<Rightarrow> ('s, 'a) io" where
  "catchIO m h = (\<lambda>s. case m s of (Inl e, s') \<Rightarrow> h e s' | (Inr x, s') \<Rightarrow> (Inr x, s'))"

definition liftE :: "error + 'a \<Rightarrow> ('s, 'a) io" where
  "liftE r = (\<lambda>s. (r, s))"

definition dateNow :: "(world, nat) io" where
  "dateNow = (\<lambda>w. (Inr (now w), w))"

definition tick :: "env \<Rightarrow> call \<Rightarrow> world \<Rightarrow> world" where
  "tick env c w = w\<lparr> now := now w + duration env c, calls := calls w @ [c] \<rparr>"

definition await :: "env \<Rightarrow> call \<Rightarrow> error + 'a \<Rightarrow> (world, 'a) io" where
  "await env c r = (\<lambda>w. (r, tick env c w))"

definition sharpToBuffer :: "env \<Rightarrow> sharp_op \<Rightarrow> buffer \<Rightarrow> (world, buffer) io" where
  "sharpToBuffer env op b = await env (Sharp op b) (sharp env op b)"

definition tesseractRecognize ::
  "env \<Rightarrow> ocr_settings \<Rightarrow> buffer \<Rightarrow> (world, string \<times> real) io" where
  "tesseractRecognize env settings b =
     await env (TesseractRecognize settings b) (recognize env settings b)"

text \<open>
  \<open>Promise.all(xs.map(f))\<close>: the calls are made in the order of the array and the results
  come back in that order. The awaits of the callbacks interleave in JavaScript; each
  callback's answer is fixed by the environment, so the list of results is the same.
\<close>

fun mapIO :: "('a \<Rightarrow> ('s, 'b) io) \<Rightarrow> 'a list \<Rightarrow> ('s, 'b list) io" where
  "mapIO f [] = returnIO []"
| "mapIO f (x # xs) = bindIO (f x) (\<lambda>y. bindIO (mapIO f xs) (\<lambda>ys. returnIO (y # ys)))"

section \<open>Results\<close>

text \<open>
  The strings \<open>'gemini'\<close>, \<open>'ocr'\<close> and \<open>'failed'\<close> of the field \<open>method\<close>; \<open>'gemini'\<close> is
  the method that the specification calls the AI method. A result object is a record
  whose optional fields are \<open>None\<close> when the object literal does not list them.
\<close>

datatype method_name = Gemini | Ocr | Failed

record result_metadata =
  meta_model :: "string option"
  meta_processingTime :: nat
  meta_confidence :: "real option"
  meta_textLength :: "nat option"
  meta_parameterCount :: nat

record attempt =
  attempt_method :: method_name
  attempt_success :: bool
  attempt_processingTime :: "nat option"

record extraction_log =
  attempts :: "attempt list"
  finalMethod :: "method_name option"
  totalTime :: nat
  log_error :: "string option"

record result =
  success :: bool
  methodName :: method_name
  extractedText :: "string option"
  patientInfo :: "(string \<times> string) list option"
  healthParameters :: "health_parameter list option"
  aiInsights :: "ai_insights option"
  isScannedDocument :: "bool option"
  requiresManualEntry :: "bool option"
  metadata :: "result_metadata option"
  error :: "string option"
  processingTime :: "nat option"
  extractionLog :: "extraction_log option"

section \<open>The OCR service\<close>

subsection \<open>\<open>deskewImage\<close>\<close>

text \<open>
  The loop \<open>for (const angle of rotations)\<close> with its two variables \<open>bestRotation\<close> and
  \<open>bestLength\<close>: each angle is rotated and recognized in turn, and a rotation replaces the
  best one only when its text is strictly longer.
\<close>

fun probeRotations ::
  "env \<Rightarrow> buffer \<Rightarrow> nat list \<Rightarrow> nat \<Rightarrow> nat \<Rightarrow> (world, nat \<times> nat) io" where
  "probeRotations env buffer [] bestRotation bestLength = returnIO (bestRotation, bestLength)"
| "probeRotations env buffer (angle # rotations) bestRotation bestLength =
     bindIO (sharpToBuffer env (Rotate angle) buffer) (\<lambda>rotatedBuffer.
     bindIO (tesseractRecognize env AutoOnly rotatedBuffer) (\<lambda>(rotatedText, rotatedConf).
       if bestLength < length rotatedText
       then probeRotations env buffer rotations angle (length rotatedText)
       else probeRotations env buffer rotations bestRotation bestLength))"

text \<open>
  The \<open>try\<close> block decides whether a rotation is returned (\<open>Some bestRotation\<close>) or the
  buffer itself (\<open>None\<close>), and every exception in it is caught and gives the buffer
  itself. \<open>return sharp(buffer).rotate(bestRotation).toBuffer()\<close> is not awaited inside the
  \<open>try\<close>, so the rotation that builds the returned buffer runs after it.
\<close>

definition deskewImage :: "env \<Rightarrow> buffer \<Rightarrow> (world, buffer) io" where
  "deskewImage env buffer =
     bindIO
       (catchIO
          (bindIO (tesseractRecognize env AutoOnlyDefaultEngine buffer) (\<lambda>(text_in, conf).
             if length text_in < 50 then
               bindIO (probeRotations env buffer [90, 180, 270] 0 (length text_in))
                 (\<lambda>(bestRotation, bestLength).
                    returnIO (if 0 < bestRotation then Some bestRotation else None))
             else returnIO None))
          (\<lambda>error. returnIO None))
       (\<lambda>rotation. case rotation of
           Some bestRotation \<Rightarrow> sharpToBuffer env (Rotate bestRotation) buffer
         | None \<Rightarrow> returnIO buffer)"

subsection \<open>\<open>extractTextFromImageBuffer\<close>\<close>

definition PREPROCESSING_METHODS :: "(string \<times> sharp_op) list" where
  "PREPROCESSING_METHODS =
     [(''High-Quality Medical'', HighQualityMedicalPrep),
      (''Adaptive CLAHE'', AdaptiveClahePrep)]"

text \<open>
  What one preprocessing method returns: \<open>{ text, score, method }\<close>. Of \<open>score\<close> only
  \<open>score.total\<close> is ever read, and the score of a method that threw is \<open>{ total: 0 }\<close>.
\<close>

record variant_result =
  variant_text :: string
  variant_score_total :: real
  variant_method :: string

text \<open>The callback of \<open>PREPROCESSING_METHODS.slice(0, 2).map\<close>, with its own \<open>try\<close>.\<close>

definition runVariant ::
  "env \<Rightarrow> buffer \<Rightarrow> string \<times> sharp_op \<Rightarrow> (world, variant_result) io" where
  "runVariant env deskewedBuffer m =
     catchIO
       (bindIO (sharpToBuffer env (snd m) deskewedBuffer) (\<lambda>processedBuffer.
        bindIO (tesseractRecognize env AutoLstmWhitelist processedBuffer) (\<lambda>(text_in, conf).
          returnIO \<lparr> variant_text = text_in,
                     variant_score_total = total (calculateQualityScore text_in conf),
                     variant_method = fst m \<rparr>)))
       (\<lambda>error. returnIO \<lparr> variant_text = '''', variant_score_total = 0,
                            variant_method = fst m \<rparr>)"

text \<open>
  \<open>results.reduce((best, current) => current.score.total > best.score.total ? current : best)\<close>
  has no initial value: it starts from the first result and throws on an empty array.
\<close>

definition reduceBest :: "variant_result list \<Rightarrow> error + variant_result" where
  "reduceBest results =
     (case results of
        [] \<Rightarrow> Inl ''Reduce of empty array with no initial value''
      | r # rs \<Rightarrow>
          Inr (foldl (\<lambda>best current.
                 if variant_score_total best < variant_score_total current then current
                 else best) r rs))"

definition extractTextFromImageBuffer :: "env \<Rightarrow> buffer \<Rightarrow> (world, string) io" where
  "extractTextFromImageBuffer env buffer =
     catchIO
       (bindIO (deskewImage env buffer) (\<lambda>deskewedBuffer.
        bindIO (sharpToBuffer env QuickScanPrep deskewedBuffer) (\<lambda>quickBuffer.
        bindIO (tesseractRecognize env AutoOnly quickBuffer) (\<lambda>(quickText, quickConf).
          let quickScore = calculateQualityScore quickText quickConf in
          if 150 < total quickScore \<and> 3 < medicalTermCount (metrics quickScore)
          then returnIO quickText
          else
            bindIO (mapIO (runVariant env deskewedBuffer) (take 2 PREPROCESSING_METHODS))
              (\<lambda>results.
            bindIO (liftE (reduceBest results)) (\<lambda>bestResult.
              returnIO (if 10 < length (variant_text bestResult)
                        then variant_text bestResult else '' '')))))))
       (\<lambda>error. returnIO '' '')"

subsection \<open>\<open>extractTextFromPDFBuffer\<close>\<close>

definition extractTextFromPDFBuffer :: "env \<Rightarrow> buffer \<Rightarrow> (world, string) io" where
  "extractTextFromPDFBuffer env buffer =
     catchIO
       (bindIO (await env (PdfParse buffer) (pdfParse env buffer)) (\<lambda>data_text.
          if 100 < length (trim data_text) then returnIO data_text
          else extractTextFromImageBuffer env buffer))
       (\<lambda>error. returnIO '' '')"

subsection \<open>\<open>extractWithOCR\<close>\<close>

text \<open>
  \<open>recognized\<close> is the text that the extractor returned and \<open>extracted\<close> the variable
  \<open>extractedText\<close> after \<open>if (hasNoText) extractedText = ' '\<close>.
\<close>

definition extractWithOCR :: "env \<Rightarrow> buffer \<Rightarrow> string \<Rightarrow> (world, result) io" where
  "extractWithOCR env fileBuffer mimeType =
     bindIO dateNow (\<lambda>startTime.
     catchIO
       (bindIO (if mimeType = ''application/pdf''
                then extractTextFromPDFBuffer env fileBuffer
                else extractTextFromImageBuffer env fileBuffer) (\<lambda>recognized.
        let hasMinimalText = (0 < length (trim recognized) \<and> length (trim recognized) < 50);
            hasNoText = (length (trim recognized) = 0);
            isScanned = (hasMinimalText \<or> hasNoText);
            extracted = (if hasNoText then '' '' else recognized)
        in
        bindIO (if 50 < length extracted then liftE (extractHealthParameters env extracted)
                else returnIO []) (\<lambda>parameters.
        bindIO dateNow (\<lambda>endTime.
          returnIO
            \<lparr> success = (0 < length parameters \<or> isScanned),
              methodName = Ocr,
              extractedText = Some extracted,
              patientInfo = None,
              healthParameters = Some parameters,
              aiInsights = None,
              isScannedDocument = Some isScanned,
              requiresManualEntry = Some (length parameters = 0),
              metadata = Some \<lparr> meta_model = None,
                                 meta_processingTime = endTime - startTime,
                                 meta_confidence = None,
                                 meta_textLength = Some (length extracted),
                                 meta_parameterCount = length parameters \<rparr>,
              error = None,
              processingTime = None,
              extractionLog = None \<rparr>))))
       (\<lambda>message.
          bindIO dateNow (\<lambda>endTime.
            returnIO
              \<lparr> success = False,
                methodName = Ocr,
                extractedText = None,
                patientInfo = None,
                healthParameters = None,
                aiInsights = None,
                isScannedDocument = None,
                requiresManualEntry = None,
                metadata = None,
                error = Some message,
                processingTime = Some (endTime - startTime),
                extractionLog = None \<rparr>)))"

section \<open>The Gemini service: \<open>extractWithGemini\<close>\<close>

definition extractWithGemini :: "env \<Rightarrow> buffer \<Rightarrow> string \<Rightarrow> (world, result) io" where
  "extractWithGemini env fileBuffer mimeType =
     bindIO dateNow (\<lambda>startTime.
     catchIO
       (bindIO (await env (GeminiGenerate fileBuffer mimeType)
                  (generateContent env fileBuffer mimeType)) (\<lambda>parsedData.
        bindIO dateNow (\<lambda>endTime.
          returnIO
            \<lparr> success = True,
              methodName = Gemini,
              extractedText = Some (case parsed_extractedText parsedData of
                                      Some t \<Rightarrow> t | None \<Rightarrow> ''''),
              patientInfo = Some (case parsed_patientInfo parsedData of
                                    Some i \<Rightarrow> i | None \<Rightarrow> []),
              healthParameters = Some (parsed_healthParameters parsedData),
              aiInsights = Some (parsed_aiInsights parsedData),
              isScannedDocument = None,
              requiresManualEntry = None,
              metadata = Some \<lparr> meta_model = Some ''gemini-2.5-flash'',
                                 meta_processingTime = endTime - startTime,
                                 meta_confidence =
                                   Some (case parsed_confidence parsedData of
                                           Some c \<Rightarrow> if c = 0 then 8 / 10 else c
                                         | None \<Rightarrow> 8 / 10),
                                 meta_textLength = None,
                                 meta_parameterCount =
                                   length (parsed_healthParameters parsedData) \<rparr>,
              error = None,
              processingTime = None,
              extractionLog = None \<rparr>)))
       (\<lambda>message.
          bindIO dateNow (\<lambda>endTime.
            returnIO
              \<lparr> success = False,
                methodName = Gemini,
                extractedText = None,
                patientInfo = None,
                healthParameters = None,
                aiInsights = None,
                isScannedDocument = None,
                requiresManualEntry = None,
                metadata = None,
                error = Some message,
                processingTime = Some (endTime - startTime),
                extractionLog = None \<rparr>)))"

section \<open>The extraction service\<close>

subsection \<open>\<open>generateBasicInsights\<close>\<close>

text \<open>The decimal digits of a number, for the template string of the summary.\<close>

fun showNat :: "nat \<Rightarrow> string" where
  "showNat n =
     (if n < 10 then [''0123456789'' ! n]
      else showNat (n div 10) @ [''0123456789'' ! (n mod 10)])"

definition generateBasicInsights :: "health_parameter list \<Rightarrow> ai_insights" where
  "generateBasicInsights parameters =
     (let outs = filter (\<lambda>p. status p = ''High'' \<or> status p = ''Low'') parameters;
          recs =
            (if 0 < length outs
             then [''Some parameters are outside normal range - consult your healthcare provider'']
             else if 0 < length parameters
             then [''All measured parameters appear to be within normal ranges'']
             else [])
      in \<lparr> summary =
             (if 0 < length outs
              then showNat (length outs) @ '' parameter(s) outside normal range detected''
              else ''All parameters within normal ranges''),
           outliers =
             map (\<lambda>p. \<lparr> outlier_parameter = name p,
                         outlier_value = value' p,
                         outlier_normalRange = normalRange p,
                         severity = ''Unknown'',
                         concern = name p @ '' is '' @ toLowerCase (status p) \<rparr>) outs,
           recommendations = recs,
           riskLevel =
             (if 2 < length outs then ''Moderate''
              else if 0 < length outs then ''Low'' else ''Low''),
           positiveFindings =
             map (\<lambda>p. name p @ '' is within normal range'')
               (filter (\<lambda>p. status p = ''Normal'') parameters) \<rparr>)"

subsection \<open>\<open>extractHealthData\<close>\<close>

text \<open>
  The options object: a field is \<open>None\<close> when it is \<open>undefined\<close> (the default of the
  destructuring then applies); \<open>forceMethod\<close> is \<open>None\<close> for \<open>null\<close> too. The two booleans
  hold the truthiness of the value passed.
\<close>

record options =
  forceMethod :: "string option"
  preferGemini :: "bool option"
  includeInsights :: "bool option"

text \<open>
  \<open>extractHealthData\<close> mutates its local object \<open>extractionLog\<close> while it runs, and its
  \<open>catch\<close> block reads what the \<open>try\<close> block has written. So the function runs on the
  world paired with that object: \<open>liftW\<close> runs a computation of the world, \<open>getLog\<close> reads
  the object and \<open>modifyLog\<close> assigns to it.
\<close>

definition liftW :: "(world, 'a) io \<Rightarrow> (world \<times> extraction_log, 'a) io" where
  "liftW m = (\<lambda>(w, l). case m w of (r, w') \<Rightarrow> (r, (w', l)))"

definition getLog :: "(world \<times> extraction_log, extraction_log) io" where
  "getLog = (\<lambda>(w, l). (Inr l, (w, l)))"

definition modifyLog ::
  "(extraction_log \<Rightarrow> extraction_log) \<Rightarrow> (world \<times> extraction_log, unit) io" where
  "modifyLog f = (\<lambda>(w, l). (Inr (), (w, f l)))"

text \<open>
  The \<open>try\<close> block. \<open>startTime\<close> is the clock read before it. In automatic mode the block
  of the Gemini attempt either returns from the function (\<open>Some\<close>) or falls through to the
  OCR attempt (\<open>None\<close>). Reading \<open>.length\<close> or calling \<open>.filter\<close> on a missing
  \<open>healthParameters\<close> throws a \<open>TypeError\<close>.
\<close>

definition extractHealthData_try ::
  "env \<Rightarrow> buffer \<Rightarrow> string \<Rightarrow> options \<Rightarrow> nat \<Rightarrow> (world \<times> extraction_log, result) io" where
  "extractHealthData_try env fileBuffer mimeType opts startTime =
     (let preferGem = (case preferGemini opts of None \<Rightarrow> True | Some b \<Rightarrow> b);
          withInsights = (case includeInsights opts of None \<Rightarrow> True | Some b \<Rightarrow> b);
          keyConfigured = (case GEMINI_API_KEY env of None \<Rightarrow> False | Some k \<Rightarrow> k \<noteq> '''')
      in
      if forceMethod opts = Some ''ocr'' then
        bindIO (liftW (extractWithOCR env fileBuffer mimeType)) (\<lambda>res.
        bindIO (modifyLog (\<lambda>l. l\<lparr> attempts := attempts l @
                  [\<lparr> attempt_method = Ocr, attempt_success = success res,
                     attempt_processingTime = None \<rparr>] \<rparr>)) (\<lambda>_.
        bindIO (modifyLog (\<lambda>l. l\<lparr> finalMethod := Some Ocr \<rparr>)) (\<lambda>_.
        bindIO (liftW dateNow) (\<lambda>endTime.
        bindIO (modifyLog (\<lambda>l. l\<lparr> totalTime := endTime - startTime \<rparr>)) (\<lambda>_.
        bindIO getLog (\<lambda>l.
          returnIO (res\<lparr> extractionLog := Some l \<rparr>)))))))
      else if forceMethod opts = Some ''gemini'' then
        bindIO (liftW (extractWithGemini env fileBuffer mimeType)) (\<lambda>res.
        bindIO (modifyLog (\<lambda>l. l\<lparr> attempts := attempts l @
                  [\<lparr> attempt_method = Gemini, attempt_success = success res,
                     attempt_processingTime = None \<rparr>] \<rparr>)) (\<lambda>_.
          if \<not> success res then throwIO ''Gemini extraction failed (forced mode)''
          else
            bindIO (modifyLog (\<lambda>l. l\<lparr> finalMethod := Some Gemini \<rparr>)) (\<lambda>_.
            bindIO (liftW dateNow) (\<lambda>endTime.
            bindIO (modifyLog (\<lambda>l. l\<lparr> totalTime := endTime - startTime \<rparr>)) (\<lambda>_.
            bindIO getLog (\<lambda>l.
              returnIO (res\<lparr> extractionLog := Some l \<rparr>)))))))
      else
        bindIO
          (if preferGem \<and> keyConfigured then
             bindIO (liftW (extractWithGemini env fileBuffer mimeType)) (\<lambda>geminiResult.
             bindIO (modifyLog (\<lambda>l. l\<lparr> attempts := attempts l @
                       [\<lparr> attempt_method = Gemini, attempt_success = success geminiResult,
                          attempt_processingTime =
                            map_option meta_processingTime (metadata geminiResult) \<rparr>] \<rparr>))
               (\<lambda>_.
             bindIO (if success geminiResult
                     then (case healthParameters geminiResult of
                             None \<Rightarrow> throwIO ''Cannot read properties of undefined (reading length)''
                           | Some ps \<Rightarrow> returnIO (0 < length ps))
                     else returnIO False) (\<lambda>useGemini.
               if useGemini then
                 bindIO (modifyLog (\<lambda>l. l\<lparr> finalMethod := Some Gemini \<rparr>)) (\<lambda>_.
                 bindIO (liftW dateNow) (\<lambda>endTime.
                 bindIO (modifyLog (\<lambda>l. l\<lparr> totalTime := endTime - startTime \<rparr>)) (\<lambda>_.
                 bindIO getLog (\<lambda>l.
                   returnIO (Some (geminiResult\<lparr> extractionLog := Some l \<rparr>))))))
               else returnIO None)))
           else returnIO None)
          (\<lambda>returned. case returned of
             Some res \<Rightarrow> returnIO res
           | None \<Rightarrow>
               bindIO (liftW (extractWithOCR env fileBuffer mimeType)) (\<lambda>ocrResult.
               bindIO (modifyLog (\<lambda>l. l\<lparr> attempts := attempts l @
                         [\<lparr> attempt_method = Ocr, attempt_success = success ocrResult,
                            attempt_processingTime =
                              map_option meta_processingTime (metadata ocrResult) \<rparr>] \<rparr>))
                 (\<lambda>_.
                 if \<not> success ocrResult
                 then throwIO ''Both Gemini and OCR extraction failed''
                 else
                   bindIO (modifyLog (\<lambda>l. l\<lparr> finalMethod := Some Ocr \<rparr>)) (\<lambda>_.
                   bindIO (liftW dateNow) (\<lambda>endTime.
                   bindIO (modifyLog (\<lambda>l. l\<lparr> totalTime := endTime - startTime \<rparr>)) (\<lambda>_.
                   bindIO (if withInsights
                           then (case healthParameters ocrResult of
                                   None \<Rightarrow> throwIO ''Cannot read properties of undefined (reading filter)''
                                 | Some ps \<Rightarrow> returnIO (Some (generateBasicInsights ps)))
                           else returnIO None) (\<lambda>insights.
                   bindIO getLog (\<lambda>l.
                     returnIO (ocrResult\<lparr> aiInsights := insights,
                                          extractionLog := Some l \<rparr>))))))))))"

text \<open>The \<open>catch\<close> block, with the message of the error caught.\<close>

definition extractHealthData_catch ::
  "nat \<Rightarrow> error \<Rightarrow> (world \<times> extraction_log, result) io" where
  "extractHealthData_catch startTime message =
     bindIO (liftW dateNow) (\<lambda>endTime.
     bindIO (modifyLog (\<lambda>l. l\<lparr> totalTime := endTime - startTime \<rparr>)) (\<lambda>_.
     bindIO (modifyLog (\<lambda>l. l\<lparr> log_error := Some message \<rparr>)) (\<lambda>_.
     bindIO getLog (\<lambda>l.
       returnIO
         \<lparr> success = False,
           methodName = Failed,
           extractedText = Some '' '',
           patientInfo = None,
           healthParameters = Some [],
           aiInsights = None,
           isScannedDocument = Some True,
           requiresManualEntry = Some True,
           metadata = None,
           error = Some message,
           processingTime = None,
           extractionLog = Some l \<rparr>))))"

definition newExtractionLog :: extraction_log where
  "newExtractionLog = \<lparr> attempts = [], finalMethod = None, totalTime = 0, log_error = None \<rparr>"

text \<open>
  The function itself: a fresh log, the clock, the \<open>try\<close> block and its \<open>catch\<close>. The
  logging before the \<open>try\<close> reads \<open>fileBuffer.length\<close> only.
\<close>

definition extractHealthData ::
  "env \<Rightarrow> buffer \<Rightarrow> string \<Rightarrow> options \<Rightarrow> (world, result) io" where
  "extractHealthData env fileBuffer mimeType opts =
     (\<lambda>w. case
        bindIO (liftW dateNow) (\<lambda>startTime.
          catchIO (extractHealthData_try env fileBuffer mimeType opts startTime)
            (extractHealthData_catch startTime))
          (w, newExtractionLog)
        of (r, (w', l)) \<Rightarrow> (r, w'))"


subsection \<open>\<open>validateExtractionResults\<close>\<close>

text \<open>
  \<open>validateExtractionResults\<close> returns \<open>{ isValid, issues }\<close>; \<open>forEach\<close> visits the
  parameters with their indices.
\<close>

record validation =
  isValid :: bool
  issues :: "string list"

definition validateExtractionResults :: "result \<Rightarrow> validation" where
  "validateExtractionResults results =
     (let notSuccessful =
            (if \<not> success results then [''Extraction not successful''] else []);
          notFlagged =
            (if (case healthParameters results of None \<Rightarrow> True | Some ps \<Rightarrow> length ps = 0)
             then (if requiresManualEntry results = Some True then []
                   else [''No parameters extracted but manual entry not flagged''])
             else []);
          perParameter =
            (case healthParameters results of
               None \<Rightarrow> []
             | Some ps \<Rightarrow>
                 concat (map (\<lambda>(index, param).
                   (if trim (name param) = ''''
                    then [''Parameter '' @ showNat index @ '': Missing name'']
                    else [])
                   @ (if value' param = None
                      then [''Parameter '' @ showNat index @ '' ('' @ name param
                            @ ''): Invalid value'']
                      else [])) (zip [0..<length ps] ps)));
          found = notSuccessful @ notFlagged @ perParameter
      in \<lparr> isValid = (length found = 0), issues = found \<rparr>)"

section \<open>Notions used in the statements\<close>

text \<open>A computation that always ends with a value: no exception leaves it.\<close>

definition returns :: "('s, 'a) io \<Rightarrow> bool" where
  "returns m = (\<forall>s. \<exists>x s'. m s = (Inr x, s'))"

text \<open>A computation of the world whose awaited calls all satisfy \<open>P\<close>.\<close>

definition issuesOnly :: "(call \<Rightarrow> bool) \<Rightarrow> (world, 'a) io \<Rightarrow> bool" where
  "issuesOnly P m = (\<forall>w. \<exists>cs. calls (snd (m w)) = calls w @ cs \<and> list_all P cs)"

text \<open>The calls of the OCR service: every call but the one to the Gemini model.\<close>

definition isOcrCall :: "call \<Rightarrow> bool" where
  "isOcrCall c = (case c of GeminiGenerate b m \<Rightarrow> False | _ \<Rightarrow> True)"

text \<open>
  The conditions of \<open>extractHealthData\<close>: automatic mode is any \<open>forceMethod\<close> other than
  \<open>'ocr'\<close> and \<open>'gemini'\<close>; Gemini is tried first when \<open>preferGemini\<close> is truthy and the API
  key is configured; and the answer of Gemini is sufficient when the call succeeds with at
  least one parameter.
\<close>

definition autoMode :: "options \<Rightarrow> bool" where
  "autoMode opts =
     (forceMethod opts \<noteq> Some ''ocr'' \<and> forceMethod opts \<noteq> Some ''gemini'')"

definition geminiFirst :: "env \<Rightarrow> options \<Rightarrow> bool" where
  "geminiFirst env opts =
     ((case preferGemini opts of None \<Rightarrow> True | Some b \<Rightarrow> b) \<and>
      (case GEMINI_API_KEY env of None \<Rightarrow> False | Some k \<Rightarrow> k \<noteq> ''''))"

definition geminiSufficient :: "env \<Rightarrow> buffer \<Rightarrow> string \<Rightarrow> bool" where
  "geminiSufficient env b m =
     (case generateContent env b m of
        Inr p \<Rightarrow> 0 < length (parsed_healthParameters p)
      | Inl e \<Rightarrow> False)"

text \<open>
  In automatic mode: the world in which the OCR attempt starts, and the attempts that the
  log holds at that point.
\<close>

definition ocrStart :: "env \<Rightarrow> buffer \<Rightarrow> string \<Rightarrow> options \<Rightarrow> world \<Rightarrow> world" where
  "ocrStart env b m opts w =
     (if geminiFirst env opts then tick env (GeminiGenerate b m) w else w)"

definition geminiAttempts ::
  "env \<Rightarrow> buffer \<Rightarrow> string \<Rightarrow> options \<Rightarrow> world \<Rightarrow> attempt list" where
  "geminiAttempts env b m opts w =
     (if geminiFirst env opts
      then (case fst (extractWithGemini env b m w) of
              Inr g \<Rightarrow> [\<lparr> attempt_method = Gemini, attempt_success = success g,
                          attempt_processingTime =
                            map_option meta_processingTime (metadata g) \<rparr>]
            | Inl e \<Rightarrow> [])
      else [])"

text \<open>The object that the \<open>catch\<close> block of \<open>extractHealthData\<close> returns.\<close>

definition failureResult :: "error \<Rightarrow> extraction_log \<Rightarrow> result" where
  "failureResult message l =
     \<lparr> success = False, methodName = Failed, extractedText = Some '' '',
       patientInfo = None, healthParameters = Some [], aiInsights = None,
       isScannedDocument = Some True, requiresManualEntry = Some True,
       metadata = None, error = Some message, processingTime = None,
       extractionLog = Some l \<rparr>"

text \<open>The text extractor that \<open>extractWithOCR\<close> picks by MIME type.\<close>

definition extractText :: "env \<Rightarrow> buffer \<Rightarrow> string \<Rightarrow> (world, string) io" where
  "extractText env b m =
     (if m = ''application/pdf'' then extractTextFromPDFBuffer env b
      else extractTextFromImageBuffer env b)"

text \<open>
  The keyword hits of a text: the terms of the vocabulary that occur in it, in any case
  of the letters A to Z.
\<close>

definition keywordHits :: "string \<Rightarrow> nat" where
  "keywordHits t = card {k \<in> set medicalTerms. sublist k (toLowerCase t)}"

text \<open>
  What a preprocessing method contributes to the selection, read off the environment:
  when preparing the deskewed buffer \<open>d\<close> and recognizing the prepared buffer both return,
  the recognized text with the quality score of that text and of the confidence of that
  recognition; and the empty text with score 0 when either of them throws.
\<close>

definition variantOutcome :: "env \<Rightarrow> buffer \<Rightarrow> string \<times> sharp_op \<Rightarrow> variant_result" where
  "variantOutcome env d m =
     (case sharp env (snd m) d of
        Inl e \<Rightarrow>
          \<lparr> variant_text = '''', variant_score_total = 0, variant_method = fst m \<rparr>
      | Inr processedBuffer \<Rightarrow>
          (case recognize env AutoLstmWhitelist processedBuffer of
             Inl e \<Rightarrow>
               \<lparr> variant_text = '''', variant_score_total = 0, variant_method = fst m \<rparr>
           | Inr (t, c) \<Rightarrow>
               \<lparr> variant_text = t,
                 variant_score_total = total (calculateQualityScore t c),
                 variant_method = fst m \<rparr>))"

section \<open>Concrete environments and inputs\<close>

text \<open>
  A family of environments for the concrete runs below. Every awaited call takes one
  millisecond; a rotation and a preprocessing method put a byte that names them in front
  of the buffer (a rotation its angle, 27 standing for 270), and the preparation of the
  quick scan leaves the buffer as it is; parsing the PDF text layer throws; and the
  parser finds the glucose parameter in every text that mentions glucose.
\<close>

definition testSharp :: "sharp_op \<Rightarrow> buffer \<Rightarrow> error + buffer" where
  "testSharp op b =
     Inr (case op of
            Rotate a \<Rightarrow> (if a = 90 then 90 else if a = 180 then 180 else 27) # b
          | QuickScanPrep \<Rightarrow> b
          | HighQualityMedicalPrep \<Rightarrow> 1 # b
          | AdaptiveClahePrep \<Rightarrow> 2 # b)"

definition glucoseParameter :: health_parameter where
  "glucoseParameter =
     \<lparr> name = ''Glucose'', value' = Some 90, unit' = ''mg/dL'', normalRange = ''70-100'',
       status = ''Normal'' \<rparr>"

definition testParser :: "string \<Rightarrow> health_parameter list" where
  "testParser t =
     (if includesStr (toLowerCase t) ''glucose'' then [glucoseParameter] else [])"

definition testEnv ::
  "(error + gemini_parsed) \<Rightarrow> (ocr_settings \<Rightarrow> buffer \<Rightarrow> error + string \<times> real) \<Rightarrow> env" where
  "testEnv g r =
     \<lparr> GEMINI_API_KEY = Some ''key'',
       generateContent = (\<lambda>b m. g),
       recognize = r,
       sharp = testSharp,
       pdfParse = (\<lambda>b. Inl ''Invalid PDF structure''),
       extractHealthParameters = (\<lambda>t. Inr (testParser t)),
       duration = (\<lambda>c. 1) \<rparr>"

definition longText :: string where
  "longText = ''Patient seen in clinic today, no laboratory values were reported here.''"

definition reportText :: string where
  "reportText = ''Glucose: 90 mg/dL   Cholesterol: 180 mg/dL   Hemoglobin: 14 g/dL''"

definition paddedText :: string where
  "paddedText = ''Glucose: 90 mg/dL'' @ replicate 40 (CHR 0x0A)"

definition noInsights :: ai_insights where
  "noInsights =
     \<lparr> summary = '''', outliers = [], recommendations = [], riskLevel = ''Unknown'',
       positiveFindings = [] \<rparr>"

definition geminiAnswer :: "health_parameter list \<Rightarrow> error + gemini_parsed" where
  "geminiAnswer ps =
     Inr \<lparr> parsed_extractedText = Some ''Glucose 90'', parsed_patientInfo = None,
           parsed_healthParameters = ps, parsed_aiInsights = noInsights,
           parsed_confidence = Some (95 / 100) \<rparr>"

definition geminiDown :: "error + gemini_parsed" where
  "geminiDown = Inl ''fetch failed''"

definition envLong :: env where
  "envLong = testEnv geminiDown (\<lambda>s b. Inr (longText, 90))"

definition envReport :: "(error + gemini_parsed) \<Rightarrow> env" where
  "envReport g = testEnv g (\<lambda>s b. Inr (reportText, 90))"

definition envPadded :: env where
  "envPadded = testEnv geminiDown (\<lambda>s b. Inr (paddedText, 90))"

definition envBlank :: env where
  "envBlank = testEnv geminiDown (\<lambda>s b. Inr ('''', 0))"

definition envRotated :: env where
  "envRotated =
     testEnv geminiDown (\<lambda>s b. Inr (if b = [180, 7] then reportText else ''x'', 50))"

definition shortNote :: string where
  "shortNote = ''No laboratory values on this first page.''"

definition longNote :: string where
  "longNote = ''The patient was seen in the clinic and was sent home''"

definition envVariants :: env where
  "envVariants =
     testEnv geminiDown
       (\<lambda>s b. if b = [1, 7] then Inr (shortNote, 72)
              else if b = [2, 7] then Inr (longNote, 63)
              else Inr (''scan'', 10))"




definition levelLine :: string where
  "levelLine = ''the level is 5 g/kg''"

definition levelUnitLine :: string where
  "levelUnitLine = ''the level is 5 g/dl''"

definition world0 :: world where
  "world0 = \<lparr> now = 0, calls = [] \<rparr>"

definition autoOptions :: options where
  "autoOptions = \<lparr> forceMethod = None, preferGemini = None, includeInsights = None \<rparr>"

definition forcedOcrOptions :: options where
  "forcedOcrOptions =
     \<lparr> forceMethod = Some ''ocr'', preferGemini = None, includeInsights = None \<rparr>"

definition forcedGeminiOptions :: options where
  "forcedGeminiOptions =
     \<lparr> forceMethod = Some ''gemini'', preferGemini = None, includeInsights = None \<rparr>"

text \<open>
  The calls of the image pipeline on the one-byte buffer \<open>[7]\<close> in these environments:
  the first pass, the three rotation probes, and the quick scan followed by the two
  preprocessing methods.
\<close>

definition firstPass :: "call list" where
  "firstPass = [TesseractRecognize AutoOnlyDefaultEngine [7]]"

definition probeCalls :: "call list" where
  "probeCalls =
     [Sharp (Rotate 90) [7], TesseractRecognize AutoOnly [90, 7],
      Sharp (Rotate 180) [7], TesseractRecognize AutoOnly [180, 7],
      Sharp (Rotate 270) [7], TesseractRecognize AutoOnly [27, 7]]"

definition scanCalls :: "call list" where
  "scanCalls =
     [Sharp QuickScanPrep [7], TesseractRecognize AutoOnly [7],
      Sharp HighQualityMedicalPrep [7], TesseractRecognize AutoLstmWhitelist [1, 7],
      Sharp AdaptiveClahePrep [7], TesseractRecognize AutoLstmWhitelist [2, 7]]"

section \<open>Rounding to double precision\<close>


lemma roundHalfEven_of_int [simp]: "roundHalfEven (of_int n) = n"
  by (simp add: roundHalfEven_def)

lemma roundHalfEven_0 [simp]: "roundHalfEven 0 = 0"
  by (simp add: roundHalfEven_def)








lemma roundPositive_normal:
  assumes lo: "2 ^ 52 \<le> x * 2 ^ j" and hi: "x * 2 ^ j < 2 ^ 53" and j: "j \<le> minExponent"
  shows "roundPositive x = of_int (roundHalfEven (x * 2 ^ j)) / 2 ^ j"
proof -
  define k where "k = minExponent - j"
  define n where "n = \<lfloor>x * 2 ^ minExponent\<rfloor>"
  from j have split: "(2::real) ^ minExponent = 2 ^ j * 2 ^ k"
    by (simp add: k_def flip: power_add)
  from j have split': "(2::int) ^ (k + 52) = 2 ^ 52 * 2 ^ k" "(2::int) ^ (k + 53) = 2 ^ 53 * 2 ^ k"
    by (simp_all add: power_add)
  have "2 ^ 52 * 2 ^ k \<le> x * 2 ^ j * 2 ^ k"
    using lo by (simp add: mult_right_mono)
  then have lo': "2 ^ (k + 52) \<le> n"
    by (simp add: n_def le_floor_iff split split' mult.assoc)
  have "x * 2 ^ j * 2 ^ k < 2 ^ 53 * 2 ^ k"
    using hi by (simp add: mult_strict_right_mono)
  then have hi': "n < 2 ^ (k + 53)"
    by (simp add: n_def floor_less_iff split split' mult.assoc)
  from lo' have pos: "0 < n"
    by (smt (verit) zero_less_power)
  have "bitlen n \<le> int (k + 53)"
    using hi' by (simp add: bitlen_le_iff_power nat_add_distrib)
  moreover have "int (k + 53) \<le> bitlen n"
    using lo' by (simp add: bitlen_ge_iff_power nat_add_distrib add.commute)
  ultimately have "bitlen n = int (k + 53)"
    by simp
  then have k: "nat (bitlen \<lfloor>x * 2 ^ minExponent\<rfloor> - 53) = k"
    by (simp add: n_def)
  have "x * 2 ^ minExponent / 2 ^ k = x * 2 ^ j"
    by (simp add: split)
  then have "roundPositive x = of_int (roundHalfEven (x * 2 ^ j)) * 2 ^ k / 2 ^ minExponent"
    by (simp add: roundPositive_def Let_def k)
  also have "\<dots> = of_int (roundHalfEven (x * 2 ^ j)) / 2 ^ j"
    by (simp add: split)
  finally show ?thesis .
qed

lemma roundPositive_0 [simp]: "roundPositive 0 = 0"
  by (simp add: roundPositive_def bitlen_def)

lemma roundToDouble_0 [simp]: "roundToDouble 0 = 0"
  by (simp add: roundToDouble_def)

lemma roundToDouble_normal:
  assumes "2 ^ 52 \<le> x * 2 ^ j" and "x * 2 ^ j < 2 ^ 53" and "j \<le> minExponent"
  shows "roundToDouble x = of_int (roundHalfEven (x * 2 ^ j)) / 2 ^ j"
proof -
  have "0 < x * 2 ^ j"
    using assms(1) by (smt (verit) zero_less_power)
  then have "0 < x"
    by (simp add: zero_less_mult_iff)
  with roundPositive_normal [OF assms] show ?thesis
    by (simp add: roundToDouble_def)
qed

lemma roundToDouble_binade:
  assumes "1 \<le> x" and "x < 2 ^ 53"
  shows "roundToDouble x =
    of_int (roundHalfEven (x * 2 ^ nat (53 - bitlen \<lfloor>x\<rfloor>))) / 2 ^ nat (53 - bitlen \<lfloor>x\<rfloor>)"
proof -
  define n where "n = \<lfloor>x\<rfloor>"
  define b where "b = nat (bitlen n)"
  define j where "j = 53 - b"
  from assms have pos: "0 < n"
    by (simp add: n_def)
  from assms have "n < 2 ^ 53"
    by (simp add: n_def floor_less_iff)
  then have "bitlen n \<le> 53"
    by (simp add: bitlen_le_iff_power)
  moreover from pos have "1 \<le> bitlen n"
    by (simp add: bitlen_ge_iff_power)
  ultimately have b: "1 \<le> b" "b \<le> 53" "bitlen n = int b"
    by (simp_all add: b_def)
  from bitlen_bounds [OF pos] b have "2 ^ (b - 1) \<le> n" "n < 2 ^ b"
    by (simp_all add: nat_diff_distrib)
  then have bounds: "2 ^ (b - 1) \<le> x" "x < 2 ^ b"
    by (simp_all add: n_def le_floor_iff floor_less_iff)
  have "2 ^ 52 = (2::real) ^ (b - 1) * 2 ^ j"
    using b by (simp add: j_def flip: power_add)
  also have "\<dots> \<le> x * 2 ^ j"
    using bounds(1) by simp
  finally have lo: "2 ^ 52 \<le> x * 2 ^ j" .
  have "x * 2 ^ j < 2 ^ b * 2 ^ j"
    using bounds(2) by simp
  also have "\<dots> = 2 ^ 53"
    using b by (simp add: j_def flip: power_add)
  finally have hi: "x * 2 ^ j < 2 ^ 53" .
  have j: "j \<le> minExponent"
    by (simp add: j_def minExponent_def)
  have "nat (53 - bitlen \<lfloor>x\<rfloor>) = j"
    using b by (simp add: j_def flip: n_def)
  with roundToDouble_normal [OF lo hi j] show ?thesis
    by simp
qed

lemma roundToDouble_of_nat:
  assumes "n < 2 ^ 53"
  shows "roundToDouble (real n) = real n"
proof (cases "n = 0")
  case True
  then show ?thesis by simp
next
  case False
  define j where "j = nat (53 - bitlen \<lfloor>real n\<rfloor>)"
  from False have "1 \<le> real n"
    by simp
  moreover from assms have "real n < 2 ^ 53"
    by (metis of_nat_less_iff of_nat_numeral of_nat_power)
  ultimately have "roundToDouble (real n) = of_int (roundHalfEven (real n * 2 ^ j)) / 2 ^ j"
    unfolding j_def by (rule roundToDouble_binade)
  moreover have "real n * 2 ^ j = of_int (int n * 2 ^ j)"
    by simp
  then have "roundHalfEven (real n * 2 ^ j) = int n * 2 ^ j"
    by (simp only: roundHalfEven_of_int)
  ultimately show ?thesis
    by simp
qed

lemma roundToDouble_numeral:
  "numeral n < (2::nat) ^ 53 \<Longrightarrow> roundToDouble (numeral n) = numeral n"
  using roundToDouble_of_nat [of "numeral n"] by simp

lemma roundToDouble_1 [simp]: "roundToDouble 1 = 1"
  using roundToDouble_of_nat [of 1] by simp

lemma bitlen_numeral:
  "bitlen 1 = 1"
  "bitlen (numeral (Num.Bit0 n)) = bitlen (numeral n) + 1"
  "bitlen (numeral (Num.Bit1 n)) = bitlen (numeral n) + 1"
  "bitlen (numeral Num.One) = 1"
  by (subst compute_bitlen, simp)+

lemma double_0_3: "roundToDouble (3 / 10) = 5404319552844595 / 18014398509481984"
  using roundToDouble_normal [of "3 / 10" 54]
  by (simp add: minExponent_def roundHalfEven_def)

lemma double_0_4: "roundToDouble (4 / 10) = 3602879701896397 / 9007199254740992"
  using roundToDouble_normal [of "4 / 10" 54]
  by (simp add: minExponent_def roundHalfEven_def)

lemma double_0_4': "roundToDouble (2 / 5) = 3602879701896397 / 9007199254740992"
  using double_0_4 by simp

lemma double_0_3_again:
  "roundToDouble (5404319552844595 / 18014398509481984) = 5404319552844595 / 18014398509481984"
  using roundToDouble_normal [of "5404319552844595 / 18014398509481984" 54]
  by (simp add: minExponent_def roundHalfEven_def)

lemma double_0_4_again:
  "roundToDouble (3602879701896397 / 9007199254740992) = 3602879701896397 / 9007199254740992"
  using roundToDouble_normal [of "3602879701896397 / 9007199254740992" 54]
  by (simp add: minExponent_def roundHalfEven_def)

lemmas double_eval = roundToDouble_binade roundHalfEven_def bitlen_numeral Let_def
  roundToDouble_numeral double_0_3 double_0_4'
  double_0_3_again double_0_4_again



section \<open>The components of the quality score\<close>

lemma startsWith_prefix: "startsWith s t \<longleftrightarrow> prefix t s"
proof
  assume "startsWith s t"
  then have "s = t @ drop (length t) s"
    by (metis append_take_drop_id startsWith_def)
  then show "prefix t s"
    by (metis prefixI)
next
  assume "prefix t s"
  then show "startsWith s t"
    by (auto simp add: startsWith_def prefix_def)
qed

lemma includesStr_sublist: "includesStr s t \<longleftrightarrow> sublist t s"
proof (induction s)
  case Nil
  show ?case by simp
next
  case (Cons c s)
  then show ?case
    by (simp add: startsWith_prefix sublist_Cons_right)
qed

lemma medicalTermCount_keywordHits:
  "length (filter (includesStr (toLowerCase t)) medicalTerms) = keywordHits t"
proof -
  have "distinct (filter (includesStr (toLowerCase t)) medicalTerms)"
    by (rule distinct_filter) (simp add: medicalTerms_def)
  then have "length (filter (includesStr (toLowerCase t)) medicalTerms) =
      card (set (filter (includesStr (toLowerCase t)) medicalTerms))"
    by (metis distinct_card)
  also have "set (filter (includesStr (toLowerCase t)) medicalTerms) =
      {k \<in> set medicalTerms. sublist k (toLowerCase t)}"
    by (simp add: includesStr_sublist)
  finally show ?thesis
    by (simp add: keywordHits_def)
qed


lemma metrics_calculateQualityScore:
  "metrics (calculateQualityScore t c) =
     \<lparr> charCount = length t, medicalTermCount = keywordHits t,
       unitPatterns = countMatches matchUnitPattern 0 t,
       tablePatterns = countMatches matchTablePattern 0 t \<rparr>"
  by (simp add: calculateQualityScore_def Let_def medicalTermCount_keywordHits)

lemma breakdown_calculateQualityScore:
  "breakdown (calculateQualityScore t c) =
     \<lparr> content = (if 100 < length t then 50
                  else jsTimes (real (length t)) (roundToDouble (3 / 10))),
       structure' = jsTimes (real (countMatches matchTablePattern 0 t)) 8,
       medicalContent = jsTimes (real (keywordHits t)) 15,
       units = jsTimes (real (countMatches matchUnitPattern 0 t)) 12,
       confidence = jsTimes c (roundToDouble (4 / 10)) \<rparr>"
  by (simp add: calculateQualityScore_def Let_def medicalTermCount_keywordHits)

lemma total_calculateQualityScore:
  "total (calculateQualityScore t c) =
     jsPlus (jsPlus (jsPlus (jsPlus (jsPlus 0
       (content (breakdown (calculateQualityScore t c))))
       (structure' (breakdown (calculateQualityScore t c))))
       (medicalContent (breakdown (calculateQualityScore t c))))
       (units (breakdown (calculateQualityScore t c))))
       (confidence (breakdown (calculateQualityScore t c)))"
  by (simp add: calculateQualityScore_def Let_def)




section \<open>Sequencing, exceptions and calls\<close>

lemmas io_defs = bindIO_def catchIO_def returnIO_def throwIO_def liftE_def dateNow_def
lemmas log_defs = liftW_def modifyLog_def getLog_def newExtractionLog_def

lemma await_eq: "await env c r w = (r, tick env c w)"
  by (simp add: await_def)

lemma now_tick [simp]: "now (tick env c w) = now w + duration env c"
  by (simp add: tick_def)

lemma calls_tick [simp]: "calls (tick env c w) = calls w @ [c]"
  by (simp add: tick_def)

lemma returnsD: "returns m \<Longrightarrow> \<exists>x s'. m s = (Inr x, s')"
  by (simp add: returns_def)

lemma returns_returnIO: "returns (returnIO x)"
  by (simp add: returns_def returnIO_def)

lemma returns_dateNow: "returns dateNow"
  by (simp add: returns_def dateNow_def)

lemma returns_getLog: "returns getLog"
  by (simp add: returns_def getLog_def)

lemma returns_modifyLog: "returns (modifyLog f)"
  by (simp add: returns_def modifyLog_def)

lemma returns_bindIO: "returns m \<Longrightarrow> (\<And>x. returns (f x)) \<Longrightarrow> returns (bindIO m f)"
  unfolding returns_def bindIO_def
  by (metis (mono_tags, lifting) old.sum.simps(6) case_prod_conv)

lemma returns_catchIO: "(\<And>e. returns (h e)) \<Longrightarrow> returns (catchIO m h)"
  unfolding returns_def catchIO_def
  apply (intro allI)
  subgoal for s
    apply (cases "m s")
    subgoal for r s'
      by (cases r) auto
    done
  done

lemma returns_liftW: "returns m \<Longrightarrow> returns (liftW m)"
proof -
  assume m: "returns m"
  have "\<exists>x s'. liftW m s = (Inr x, s')" for s
  proof (cases s)
    case (Pair w l)
    from returnsD [OF m, of w] obtain x w' where "m w = (Inr x, w')" by blast
    with Pair show ?thesis by (simp add: liftW_def)
  qed
  then show ?thesis by (simp add: returns_def)
qed

lemma returns_extractTextFromImageBuffer: "returns (extractTextFromImageBuffer env b)"
  unfolding extractTextFromImageBuffer_def
  by (rule returns_catchIO) (rule returns_returnIO)

lemma returns_extractTextFromPDFBuffer: "returns (extractTextFromPDFBuffer env b)"
  unfolding extractTextFromPDFBuffer_def
  by (rule returns_catchIO) (rule returns_returnIO)

lemma returns_extractWithOCR: "returns (extractWithOCR env b m)"
  unfolding extractWithOCR_def
  by (intro returns_bindIO returns_catchIO returns_dateNow returns_returnIO)

lemma returns_extractWithGemini: "returns (extractWithGemini env b m)"
  unfolding extractWithGemini_def
  by (intro returns_bindIO returns_catchIO returns_dateNow returns_returnIO)

lemma returns_extractHealthData_catch: "returns (extractHealthData_catch startTime message)"
  unfolding extractHealthData_catch_def
  by (intro returns_bindIO returns_liftW returns_dateNow returns_returnIO
      returns_getLog returns_modifyLog)

lemma returns_extractHealthData: "returns (extractHealthData env b m opts)"
proof -
  let ?m = "bindIO (liftW dateNow) (\<lambda>startTime.
          catchIO (extractHealthData_try env b m opts startTime)
            (extractHealthData_catch startTime))"
  have m: "returns ?m"
    by (intro returns_bindIO returns_catchIO returns_liftW returns_dateNow
        returns_extractHealthData_catch)
  have "\<exists>x w'. extractHealthData env b m opts w = (Inr x, w')" for w
  proof -
    from returnsD [OF m, of "(w, newExtractionLog)"]
    obtain x s' where "?m (w, newExtractionLog) = (Inr x, s')" by blast
    then show ?thesis by (cases s') (simp add: extractHealthData_def)
  qed
  then show ?thesis by (simp add: returns_def)
qed

lemma issuesOnlyD:
  "issuesOnly P m \<Longrightarrow> \<exists>cs. calls (snd (m w)) = calls w @ cs \<and> list_all P cs"
  by (simp add: issuesOnly_def)

lemma issuesOnly_returnIO: "issuesOnly P (returnIO x)"
  by (simp add: issuesOnly_def returnIO_def)

lemma issuesOnly_throwIO: "issuesOnly P (throwIO e)"
  by (simp add: issuesOnly_def throwIO_def)

lemma issuesOnly_liftE: "issuesOnly P (liftE r)"
  by (simp add: issuesOnly_def liftE_def)

lemma issuesOnly_dateNow: "issuesOnly P dateNow"
  by (simp add: issuesOnly_def dateNow_def)

lemma issuesOnly_await: "P c \<Longrightarrow> issuesOnly P (await env c r)"
  by (simp add: issuesOnly_def await_def)

lemma issuesOnly_bindIO:
  assumes m: "issuesOnly P m" and f: "\<And>x. issuesOnly P (f x)"
  shows "issuesOnly P (bindIO m f)"
proof -
  have "\<exists>cs. calls (snd (bindIO m f w)) = calls w @ cs \<and> list_all P cs" for w
  proof (cases "m w")
    case (Pair r w1)
    from issuesOnlyD [OF m, of w] Pair
    obtain cs where cs: "calls w1 = calls w @ cs" "list_all P cs" by auto
    show ?thesis
    proof (cases r)
      case (Inl e)
      with Pair cs show ?thesis by (auto simp: bindIO_def)
    next
      case (Inr x)
      from issuesOnlyD [OF f, of x w1]
      obtain ds where "calls (snd (f x w1)) = calls w1 @ ds" "list_all P ds" by auto
      with Pair Inr cs show ?thesis by (auto simp: bindIO_def)
    qed
  qed
  then show ?thesis by (simp add: issuesOnly_def)
qed

lemma issuesOnly_catchIO:
  assumes m: "issuesOnly P m" and h: "\<And>e. issuesOnly P (h e)"
  shows "issuesOnly P (catchIO m h)"
proof -
  have "\<exists>cs. calls (snd (catchIO m h w)) = calls w @ cs \<and> list_all P cs" for w
  proof (cases "m w")
    case (Pair r w1)
    from issuesOnlyD [OF m, of w] Pair
    obtain cs where cs: "calls w1 = calls w @ cs" "list_all P cs" by auto
    show ?thesis
    proof (cases r)
      case (Inr x)
      with Pair cs show ?thesis by (auto simp: catchIO_def)
    next
      case (Inl e)
      from issuesOnlyD [OF h, of e w1]
      obtain ds where "calls (snd (h e w1)) = calls w1 @ ds" "list_all P ds" by auto
      with Pair Inl cs show ?thesis by (auto simp: catchIO_def)
    qed
  qed
  then show ?thesis by (simp add: issuesOnly_def)
qed

lemma issuesOnly_if:
  "issuesOnly P a \<Longrightarrow> issuesOnly P b \<Longrightarrow> issuesOnly P (if c then a else b)"
  by simp

lemma issuesOnly_case_prod:
  "(\<And>a b. issuesOnly P (f a b)) \<Longrightarrow> issuesOnly P (case x of (a, b) \<Rightarrow> f a b)"
  by (cases x) simp

lemma issuesOnly_case_option:
  "issuesOnly P a \<Longrightarrow> (\<And>x. issuesOnly P (f x)) \<Longrightarrow>
   issuesOnly P (case x of None \<Rightarrow> a | Some y \<Rightarrow> f y)"
  by (cases x) simp_all

lemma issuesOnly_mapIO:
  "(\<And>x. issuesOnly P (f x)) \<Longrightarrow> issuesOnly P (mapIO f xs)"
  by (induction xs) (auto intro!: issuesOnly_bindIO issuesOnly_returnIO)

lemmas issuesOnly_intros =
  issuesOnly_bindIO issuesOnly_catchIO issuesOnly_returnIO issuesOnly_throwIO
  issuesOnly_liftE issuesOnly_dateNow issuesOnly_if issuesOnly_case_prod
  issuesOnly_case_option issuesOnly_mapIO

lemma issuesOnly_sharpToBuffer: "issuesOnly isOcrCall (sharpToBuffer env op b)"
  unfolding sharpToBuffer_def by (rule issuesOnly_await) (simp add: isOcrCall_def)

lemma issuesOnly_tesseractRecognize: "issuesOnly isOcrCall (tesseractRecognize env s b)"
  unfolding tesseractRecognize_def by (rule issuesOnly_await) (simp add: isOcrCall_def)

lemma issuesOnly_probeRotations:
  "issuesOnly isOcrCall (probeRotations env b rotations bestRotation bestLength)"
proof (induction rotations arbitrary: bestRotation bestLength)
  case Nil
  show ?case by (simp add: issuesOnly_returnIO)
next
  case (Cons angle rotations)
  show ?case
    unfolding probeRotations.simps
    by (intro issuesOnly_intros issuesOnly_sharpToBuffer issuesOnly_tesseractRecognize Cons.IH)
qed

lemma issuesOnly_deskewImage: "issuesOnly isOcrCall (deskewImage env b)"
  unfolding deskewImage_def
  by (intro issuesOnly_intros issuesOnly_sharpToBuffer issuesOnly_tesseractRecognize
      issuesOnly_probeRotations)

lemma issuesOnly_runVariant: "issuesOnly isOcrCall (runVariant env b v)"
  unfolding runVariant_def
  by (intro issuesOnly_intros issuesOnly_sharpToBuffer issuesOnly_tesseractRecognize)

lemma issuesOnly_extractTextFromImageBuffer:
  "issuesOnly isOcrCall (extractTextFromImageBuffer env b)"
  unfolding extractTextFromImageBuffer_def Let_def
  by (intro issuesOnly_intros issuesOnly_sharpToBuffer issuesOnly_tesseractRecognize
      issuesOnly_deskewImage issuesOnly_runVariant)

lemma issuesOnly_extractTextFromPDFBuffer:
  "issuesOnly isOcrCall (extractTextFromPDFBuffer env b)"
  unfolding extractTextFromPDFBuffer_def
  by (intro issuesOnly_intros issuesOnly_extractTextFromImageBuffer issuesOnly_await)
     (simp add: isOcrCall_def)

lemma issuesOnly_extractWithOCR: "issuesOnly isOcrCall (extractWithOCR env b m)"
  unfolding extractWithOCR_def Let_def
  by (intro issuesOnly_intros issuesOnly_extractTextFromImageBuffer
      issuesOnly_extractTextFromPDFBuffer)

section \<open>The two extraction methods\<close>

lemma extractWithGemini_success:
  assumes "generateContent env b m = Inr p"
  shows "extractWithGemini env b m w =
    (Inr \<lparr> success = True, methodName = Gemini,
           extractedText = Some (case parsed_extractedText p of Some t \<Rightarrow> t | None \<Rightarrow> ''''),
           patientInfo = Some (case parsed_patientInfo p of Some i \<Rightarrow> i | None \<Rightarrow> []),
           healthParameters = Some (parsed_healthParameters p),
           aiInsights = Some (parsed_aiInsights p),
           isScannedDocument = None, requiresManualEntry = None,
           metadata = Some \<lparr> meta_model = Some ''gemini-2.5-flash'',
                              meta_processingTime = duration env (GeminiGenerate b m),
                              meta_confidence =
                                Some (case parsed_confidence p of
                                        Some c \<Rightarrow> if c = 0 then 8 / 10 else c
                                      | None \<Rightarrow> 8 / 10),
                              meta_textLength = None,
                              meta_parameterCount = length (parsed_healthParameters p) \<rparr>,
           error = None, processingTime = None, extractionLog = None \<rparr>,
     tick env (GeminiGenerate b m) w)"
  using assms by (simp add: extractWithGemini_def io_defs await_eq)

lemma extractWithGemini_failure:
  assumes "generateContent env b m = Inl e"
  shows "extractWithGemini env b m w =
    (Inr \<lparr> success = False, methodName = Gemini, extractedText = None, patientInfo = None,
           healthParameters = None, aiInsights = None, isScannedDocument = None,
           requiresManualEntry = None, metadata = None, error = Some e,
           processingTime = Some (duration env (GeminiGenerate b m)),
           extractionLog = None \<rparr>,
     tick env (GeminiGenerate b m) w)"
  using assms by (simp add: extractWithGemini_def io_defs await_eq)

lemma extractWithGemini_shape:
  "\<exists>g. extractWithGemini env b m w = (Inr g, tick env (GeminiGenerate b m) w)
     \<and> methodName g = Gemini
     \<and> requiresManualEntry g = None
     \<and> (if success g then (\<exists>ps. healthParameters g = Some ps) \<and> metadata g \<noteq> None
         else healthParameters g = None \<and> metadata g = None)"
proof (cases "generateContent env b m")
  case (Inl e)
  show ?thesis by (simp add: extractWithGemini_failure [OF Inl])
next
  case (Inr p)
  show ?thesis by (simp add: extractWithGemini_success [OF Inr])
qed

lemma extractText_returns: "\<exists>t w1. extractText env b m w = (Inr t, w1)"
  using returnsD [OF returns_extractTextFromPDFBuffer, of env b w]
    returnsD [OF returns_extractTextFromImageBuffer, of env b w]
  by (simp add: extractText_def)

lemma extractWithOCR_parsed:
  assumes "extractText env b m w = (Inr t, w1)"
    and "extracted = (if length (trim t) = 0 then '' '' else t)"
    and "(if 50 < length extracted then extractHealthParameters env extracted else Inr []) = Inr ps"
  shows "extractWithOCR env b m w =
    (Inr \<lparr> success = (0 < length ps \<or> length (trim t) < 50), methodName = Ocr,
           extractedText = Some extracted, patientInfo = None,
           healthParameters = Some ps, aiInsights = None,
           isScannedDocument = Some (length (trim t) < 50),
           requiresManualEntry = Some (length ps = 0),
           metadata = Some \<lparr> meta_model = None, meta_processingTime = now w1 - now w,
                              meta_confidence = None,
                              meta_textLength = Some (length extracted),
                              meta_parameterCount = length ps \<rparr>,
           error = None, processingTime = None, extractionLog = None \<rparr>, w1)"
  using assms
  by (auto simp add: extractWithOCR_def extractText_def io_defs Let_def split: if_splits)

lemma extractWithOCR_parser_throws:
  assumes "extractText env b m w = (Inr t, w1)"
    and "extracted = (if length (trim t) = 0 then '' '' else t)"
    and "50 < length extracted"
    and "extractHealthParameters env extracted = Inl e"
  shows "extractWithOCR env b m w =
    (Inr \<lparr> success = False, methodName = Ocr, extractedText = None, patientInfo = None,
           healthParameters = None, aiInsights = None, isScannedDocument = None,
           requiresManualEntry = None, metadata = None, error = Some e,
           processingTime = Some (now w1 - now w), extractionLog = None \<rparr>, w1)"
  using assms
  by (auto simp add: extractWithOCR_def extractText_def io_defs Let_def split: if_splits)

lemma extractWithOCR_shape:
  "\<exists>r w1. extractWithOCR env b m w = (Inr r, w1)
     \<and> methodName r = Ocr
     \<and> (if success r
         then (\<exists>ps. healthParameters r = Some ps \<and> requiresManualEntry r = Some (ps = []))
         else healthParameters r = None \<or> healthParameters r = Some [])"
proof -
  obtain t w1 where t: "extractText env b m w = (Inr t, w1)"
    using extractText_returns by blast
  define extracted where "extracted = (if length (trim t) = 0 then '' '' else t)"
  show ?thesis
  proof (cases "if 50 < length extracted then extractHealthParameters env extracted else Inr []")
    case (Inr ps)
    show ?thesis
      by (simp add: extractWithOCR_parsed [OF t extracted_def Inr])
  next
    case (Inl e)
    then have "50 < length extracted" "extractHealthParameters env extracted = Inl e"
      by (auto split: if_splits)
    then show ?thesis
      by (simp add: extractWithOCR_parser_throws [OF t extracted_def])
  qed
qed

lemma extractTextFromPDFBuffer_cases:
  "extractTextFromPDFBuffer env b w =
     (case pdfParse env b of
        Inl e \<Rightarrow> (Inr '' '', tick env (PdfParse b) w)
      | Inr t \<Rightarrow>
          if 100 < length (trim t) then (Inr t, tick env (PdfParse b) w)
          else extractTextFromImageBuffer env b (tick env (PdfParse b) w))"
proof (cases "pdfParse env b")
  case (Inl e)
  then show ?thesis
    by (simp add: extractTextFromPDFBuffer_def io_defs await_eq)
next
  case (Inr t)
  obtain s w2 where "extractTextFromImageBuffer env b (tick env (PdfParse b) w) = (Inr s, w2)"
    using returnsD [OF returns_extractTextFromImageBuffer] by blast
  with Inr show ?thesis
    by (simp add: extractTextFromPDFBuffer_def io_defs await_eq)
qed

lemma sharpToBuffer_eq: "sharpToBuffer env op b w = (sharp env op b, tick env (Sharp op b) w)"
  by (simp add: sharpToBuffer_def await_eq)

lemma tesseractRecognize_eq:
  "tesseractRecognize env s b w = (recognize env s b, tick env (TesseractRecognize s b) w)"
  by (simp add: tesseractRecognize_def await_eq)

lemma returns_runVariant: "returns (runVariant env d v)"
  unfolding runVariant_def by (rule returns_catchIO) (rule returns_returnIO)

lemma variant_method_runVariant:
  "runVariant env d v w = (Inr r, w') \<Longrightarrow> variant_method r = fst v"
  by (auto simp: runVariant_def io_defs sharpToBuffer_eq tesseractRecognize_eq
      split: sum.splits prod.splits)

lemma mapIO_runVariant:
  "\<exists>results w'. mapIO (runVariant env d) vs w = (Inr results, w')
     \<and> map variant_method results = map fst vs"
proof (induction vs arbitrary: w)
  case Nil
  show ?case by (simp add: returnIO_def)
next
  case (Cons v vs)
  obtain r w1 where r: "runVariant env d v w = (Inr r, w1)"
    using returnsD [OF returns_runVariant] by blast
  from Cons.IH [of w1] obtain rs w2 where
    rs: "mapIO (runVariant env d) vs w1 = (Inr rs, w2)" "map variant_method rs = map fst vs"
    by blast
  from r rs variant_method_runVariant [OF r] show ?case
    by (simp add: bindIO_def returnIO_def)
qed

lemma runVariant_outcome:
  "\<exists>w'. runVariant env d v w = (Inr (variantOutcome env d v), w')"
  by (auto simp: runVariant_def variantOutcome_def io_defs sharpToBuffer_eq
      tesseractRecognize_eq split: sum.splits prod.splits)

lemma mapIO_runVariant_outcome:
  "\<exists>w'. mapIO (runVariant env d) vs w = (Inr (map (variantOutcome env d) vs), w')"
proof (induction vs arbitrary: w)
  case Nil
  show ?case by (simp add: returnIO_def)
next
  case (Cons v vs)
  obtain w1 where r: "runVariant env d v w = (Inr (variantOutcome env d v), w1)"
    using runVariant_outcome by blast
  from Cons.IH [of w1] obtain w2 where
    rs: "mapIO (runVariant env d) vs w1 = (Inr (map (variantOutcome env d) vs), w2)"
    by blast
  from r rs show ?case
    by (simp add: bindIO_def returnIO_def)
qed

lemma foldl_best:
  "foldl (\<lambda>best current.
      if variant_score_total best < variant_score_total current then current else best) r rs
     \<in> set (r # rs)
   \<and> (\<forall>x \<in> set (r # rs). variant_score_total x \<le> variant_score_total
        (foldl (\<lambda>best current.
           if variant_score_total best < variant_score_total current then current else best)
           r rs))"
proof (induction rs arbitrary: r)
  case Nil
  show ?case by simp
next
  case (Cons c rs)
  let ?pick = "\<lambda>best current.
      if variant_score_total best < variant_score_total current then current else best"
  show ?case
  proof (cases "variant_score_total r < variant_score_total c")
    case True
    with Cons.IH [of c] show ?thesis by auto
  next
    case False
    with Cons.IH [of r] show ?thesis by auto
  qed
qed

lemma reduceBest_highest:
  assumes "reduceBest results = Inr best"
  shows "best \<in> set results
    \<and> (\<forall>r \<in> set results. variant_score_total r \<le> variant_score_total best)"
proof (cases results)
  case Nil
  with assms show ?thesis by (simp add: reduceBest_def)
next
  case (Cons r rs)
  with assms foldl_best [of r rs] show ?thesis by (simp add: reduceBest_def)
qed

section \<open>The branches of \<open>extractHealthData\<close>\<close>


lemma forced_ocr:
  assumes "forceMethod opts = Some ''ocr''"
    and "extractWithOCR env b m w = (Inr r, w1)"
  shows "extractHealthData env b m opts w =
    (Inr (r\<lparr> extractionLog := Some
        \<lparr> attempts = [\<lparr> attempt_method = Ocr, attempt_success = success r,
                         attempt_processingTime = None \<rparr>],
          finalMethod = Some Ocr, totalTime = now w1 - now w, log_error = None \<rparr> \<rparr>), w1)"
  using assms
  by (simp add: extractHealthData_def extractHealthData_try_def io_defs log_defs Let_def)

lemma forced_gemini_success:
  assumes "forceMethod opts = Some ''gemini''"
    and "extractWithGemini env b m w = (Inr r, w1)"
    and "success r"
  shows "extractHealthData env b m opts w =
    (Inr (r\<lparr> extractionLog := Some
        \<lparr> attempts = [\<lparr> attempt_method = Gemini, attempt_success = True,
                         attempt_processingTime = None \<rparr>],
          finalMethod = Some Gemini, totalTime = now w1 - now w, log_error = None \<rparr> \<rparr>), w1)"
  using assms
  by (simp add: extractHealthData_def extractHealthData_try_def io_defs log_defs Let_def)

lemma forced_gemini_failure:
  assumes "forceMethod opts = Some ''gemini''"
    and "extractWithGemini env b m w = (Inr r, w1)"
    and "\<not> success r"
  shows "extractHealthData env b m opts w =
    (Inr (failureResult ''Gemini extraction failed (forced mode)''
        \<lparr> attempts = [\<lparr> attempt_method = Gemini, attempt_success = False,
                         attempt_processingTime = None \<rparr>],
          finalMethod = None, totalTime = now w1 - now w,
          log_error = Some ''Gemini extraction failed (forced mode)'' \<rparr>), w1)"
  using assms
  by (simp add: extractHealthData_def extractHealthData_try_def extractHealthData_catch_def
      failureResult_def io_defs log_defs Let_def)

lemma auto_gemini_used:
  assumes "autoMode opts" and "geminiFirst env opts"
    and "extractWithGemini env b m w = (Inr g, w1)"
    and "success g" and "healthParameters g = Some ps" and "0 < length ps"
  shows "extractHealthData env b m opts w =
    (Inr (g\<lparr> extractionLog := Some
        \<lparr> attempts = [\<lparr> attempt_method = Gemini, attempt_success = True,
                         attempt_processingTime =
                           map_option meta_processingTime (metadata g) \<rparr>],
          finalMethod = Some Gemini, totalTime = now w1 - now w, log_error = None \<rparr> \<rparr>), w1)"
  using assms
  by (simp add: extractHealthData_def extractHealthData_try_def autoMode_def geminiFirst_def
      io_defs log_defs Let_def)

lemma auto_ocr_after_gemini_success:
  assumes "autoMode opts" and "geminiFirst env opts"
    and "extractWithGemini env b m w = (Inr g, w1)"
    and "\<not> success g \<or> healthParameters g = Some []"
    and "extractWithOCR env b m w1 = (Inr r, w2)"
    and "success r" and "healthParameters r = Some ps"
  shows "extractHealthData env b m opts w =
    (Inr (r\<lparr> aiInsights := (if includeInsights opts = Some False then None
                              else Some (generateBasicInsights ps)),
             extractionLog := Some
        \<lparr> attempts = [\<lparr> attempt_method = Gemini, attempt_success = success g,
                         attempt_processingTime =
                           map_option meta_processingTime (metadata g) \<rparr>,
                      \<lparr> attempt_method = Ocr, attempt_success = True,
                         attempt_processingTime =
                           map_option meta_processingTime (metadata r) \<rparr>],
          finalMethod = Some Ocr, totalTime = now w2 - now w, log_error = None \<rparr> \<rparr>), w2)"
  using assms
  by (auto simp add: extractHealthData_def extractHealthData_try_def autoMode_def geminiFirst_def
      io_defs log_defs Let_def split: option.splits)

lemma auto_ocr_after_gemini_failure:
  assumes "autoMode opts" and "geminiFirst env opts"
    and "extractWithGemini env b m w = (Inr g, w1)"
    and "\<not> success g \<or> healthParameters g = Some []"
    and "extractWithOCR env b m w1 = (Inr r, w2)"
    and "\<not> success r"
  shows "extractHealthData env b m opts w =
    (Inr (failureResult ''Both Gemini and OCR extraction failed''
        \<lparr> attempts = [\<lparr> attempt_method = Gemini, attempt_success = success g,
                         attempt_processingTime =
                           map_option meta_processingTime (metadata g) \<rparr>,
                      \<lparr> attempt_method = Ocr, attempt_success = False,
                         attempt_processingTime =
                           map_option meta_processingTime (metadata r) \<rparr>],
          finalMethod = None, totalTime = now w2 - now w,
          log_error = Some ''Both Gemini and OCR extraction failed'' \<rparr>), w2)"
  using assms
  by (auto simp add: extractHealthData_def extractHealthData_try_def extractHealthData_catch_def
      failureResult_def autoMode_def geminiFirst_def
      io_defs log_defs Let_def split: option.splits)

lemma auto_ocr_only_success:
  assumes "autoMode opts" and "\<not> geminiFirst env opts"
    and "extractWithOCR env b m w = (Inr r, w2)"
    and "success r" and "healthParameters r = Some ps"
  shows "extractHealthData env b m opts w =
    (Inr (r\<lparr> aiInsights := (if includeInsights opts = Some False then None
                              else Some (generateBasicInsights ps)),
             extractionLog := Some
        \<lparr> attempts = [\<lparr> attempt_method = Ocr, attempt_success = True,
                         attempt_processingTime =
                           map_option meta_processingTime (metadata r) \<rparr>],
          finalMethod = Some Ocr, totalTime = now w2 - now w, log_error = None \<rparr> \<rparr>), w2)"
  using assms
  by (auto simp add: extractHealthData_def extractHealthData_try_def autoMode_def geminiFirst_def
      io_defs log_defs Let_def split: option.splits)

lemma auto_ocr_only_failure:
  assumes "autoMode opts" and "\<not> geminiFirst env opts"
    and "extractWithOCR env b m w = (Inr r, w2)"
    and "\<not> success r"
  shows "extractHealthData env b m opts w =
    (Inr (failureResult ''Both Gemini and OCR extraction failed''
        \<lparr> attempts = [\<lparr> attempt_method = Ocr, attempt_success = False,
                         attempt_processingTime =
                           map_option meta_processingTime (metadata r) \<rparr>],
          finalMethod = None, totalTime = now w2 - now w,
          log_error = Some ''Both Gemini and OCR extraction failed'' \<rparr>), w2)"
  using assms
  by (auto simp add: extractHealthData_def extractHealthData_try_def extractHealthData_catch_def
      failureResult_def autoMode_def geminiFirst_def
      io_defs log_defs Let_def split: option.splits)

lemma geminiSufficient_iff:
  assumes "extractWithGemini env b m w = (Inr g, w1)"
  shows "geminiSufficient env b m =
     (success g \<and> (\<exists>ps. healthParameters g = Some ps \<and> 0 < length ps))"
proof (cases "generateContent env b m")
  case (Inl e)
  with assms show ?thesis
    by (auto simp: geminiSufficient_def extractWithGemini_failure [OF Inl])
next
  case (Inr p)
  with assms show ?thesis
    by (auto simp: geminiSufficient_def extractWithGemini_success [OF Inr])
qed

lemma extractHealthData_branches [case_names forcedOcr forcedGeminiOk forcedGeminiFail
    autoGemini autoOcrOk autoOcrFail]:
  fixes env b m opts w
  defines "w0 \<equiv> tick env (GeminiGenerate b m) w"
  obtains
    (forcedOcr) res w1 where
      "forceMethod opts = Some ''ocr''"
      "extractWithOCR env b m w = (Inr res, w1)"
      "methodName res = Ocr"
      "extractHealthData env b m opts w =
         (Inr (res\<lparr> extractionLog := Some
            \<lparr> attempts = [\<lparr> attempt_method = Ocr, attempt_success = success res,
                             attempt_processingTime = None \<rparr>],
              finalMethod = Some Ocr, totalTime = now w1 - now w, log_error = None \<rparr> \<rparr>), w1)"
  | (forcedGeminiOk) g where
      "forceMethod opts = Some ''gemini''"
      "extractWithGemini env b m w = (Inr g, w0)"
      "methodName g = Gemini" "success g"
      "extractHealthData env b m opts w =
         (Inr (g\<lparr> extractionLog := Some
            \<lparr> attempts = [\<lparr> attempt_method = Gemini, attempt_success = True,
                             attempt_processingTime = None \<rparr>],
              finalMethod = Some Gemini, totalTime = now w0 - now w, log_error = None \<rparr> \<rparr>), w0)"
  | (forcedGeminiFail) g where
      "forceMethod opts = Some ''gemini''"
      "extractWithGemini env b m w = (Inr g, w0)"
      "\<not> success g"
      "extractHealthData env b m opts w =
         (Inr (failureResult ''Gemini extraction failed (forced mode)''
            \<lparr> attempts = [\<lparr> attempt_method = Gemini, attempt_success = False,
                             attempt_processingTime = None \<rparr>],
              finalMethod = None, totalTime = now w0 - now w,
              log_error = Some ''Gemini extraction failed (forced mode)'' \<rparr>), w0)"
  | (autoGemini) g where
      "autoMode opts" "geminiFirst env opts" "geminiSufficient env b m"
      "extractWithGemini env b m w = (Inr g, w0)"
      "methodName g = Gemini" "success g"
      "extractHealthData env b m opts w =
         (Inr (g\<lparr> extractionLog := Some
            \<lparr> attempts = geminiAttempts env b m opts w,
              finalMethod = Some Gemini, totalTime = now w0 - now w, log_error = None \<rparr> \<rparr>), w0)"
  | (autoOcrOk) res w2 ps where
      "autoMode opts" "\<not> (geminiFirst env opts \<and> geminiSufficient env b m)"
      "extractWithOCR env b m (ocrStart env b m opts w) = (Inr res, w2)"
      "methodName res = Ocr" "success res"
      "healthParameters res = Some ps" "requiresManualEntry res = Some (ps = [])"
      "extractHealthData env b m opts w =
         (Inr (res\<lparr> aiInsights := (if includeInsights opts = Some False then None
                                   else Some (generateBasicInsights ps)),
                  extractionLog := Some
            \<lparr> attempts = geminiAttempts env b m opts w @
                  [\<lparr> attempt_method = Ocr, attempt_success = True,
                     attempt_processingTime = map_option meta_processingTime (metadata res) \<rparr>],
              finalMethod = Some Ocr, totalTime = now w2 - now w, log_error = None \<rparr> \<rparr>), w2)"
  | (autoOcrFail) res w2 where
      "autoMode opts" "\<not> (geminiFirst env opts \<and> geminiSufficient env b m)"
      "extractWithOCR env b m (ocrStart env b m opts w) = (Inr res, w2)"
      "\<not> success res"
      "extractHealthData env b m opts w =
         (Inr (failureResult ''Both Gemini and OCR extraction failed''
            \<lparr> attempts = geminiAttempts env b m opts w @
                  [\<lparr> attempt_method = Ocr, attempt_success = False,
                     attempt_processingTime = map_option meta_processingTime (metadata res) \<rparr>],
              finalMethod = None, totalTime = now w2 - now w,
              log_error = Some ''Both Gemini and OCR extraction failed'' \<rparr>), w2)"
proof -
  consider (ocr) "forceMethod opts = Some ''ocr''"
    | (gemini) "forceMethod opts = Some ''gemini''"
    | (auto) "autoMode opts"
    by (auto simp: autoMode_def)
  then show ?thesis
  proof cases
    case ocr
    obtain r w1 where r: "extractWithOCR env b m w = (Inr r, w1)" "methodName r = Ocr"
      using extractWithOCR_shape [of env b m w] by blast
    show ?thesis
      by (rule forcedOcr [OF ocr r forced_ocr [OF ocr r(1)]])
  next
    case gemini
    obtain g where g: "extractWithGemini env b m w = (Inr g, w0)" "methodName g = Gemini"
      using extractWithGemini_shape [of env b m w] unfolding w0_def by blast
    show ?thesis
    proof (cases "success g")
      case True
      show ?thesis
        by (rule forcedGeminiOk [OF gemini g True forced_gemini_success [OF gemini g(1) True]])
    next
      case False
      show ?thesis
        by (rule forcedGeminiFail [OF gemini g(1) False
              forced_gemini_failure [OF gemini g(1) False]])
    qed
  next
    case auto
    show ?thesis
    proof (cases "geminiFirst env opts")
      case False
      then have start: "ocrStart env b m opts w = w" and pre: "geminiAttempts env b m opts w = []"
        by (simp_all add: ocrStart_def geminiAttempts_def)
      from False have ns: "\<not> (geminiFirst env opts \<and> geminiSufficient env b m)" by simp
      obtain r w1 where r: "extractWithOCR env b m w = (Inr r, w1)" "methodName r = Ocr"
        and rs: "if success r
           then (\<exists>ps. healthParameters r = Some ps \<and> requiresManualEntry r = Some (ps = []))
           else healthParameters r = None \<or> healthParameters r = Some []"
        using extractWithOCR_shape [of env b m w] by blast
      show ?thesis
      proof (cases "success r")
        case True
        with rs obtain ps where ps: "healthParameters r = Some ps"
          "requiresManualEntry r = Some (ps = [])" by auto
        show ?thesis
          using auto_ocr_only_success [OF auto False r(1) True ps(1)]
          by (intro autoOcrOk [OF auto ns _ r(2) True ps]) (simp_all add: start pre r)
      next
        case f: False
        show ?thesis
          using auto_ocr_only_failure [OF auto False r(1) f]
          by (intro autoOcrFail [OF auto ns _ f]) (simp_all add: start pre r)
      qed
    next
      case True
      obtain g where g: "extractWithGemini env b m w = (Inr g, w0)" "methodName g = Gemini"
        and gs: "if success g then (\<exists>ps. healthParameters g = Some ps) \<and> metadata g \<noteq> None
                 else healthParameters g = None \<and> metadata g = None"
        using extractWithGemini_shape [of env b m w] unfolding w0_def by blast
      from True g have start: "ocrStart env b m opts w = w0"
        and pre: "geminiAttempts env b m opts w =
          [\<lparr> attempt_method = Gemini, attempt_success = success g,
             attempt_processingTime = map_option meta_processingTime (metadata g) \<rparr>]"
        by (simp_all add: ocrStart_def geminiAttempts_def w0_def)
      note suff = geminiSufficient_iff [OF g(1)]
      show ?thesis
      proof (cases "geminiSufficient env b m")
        case used: True
        with suff obtain ps where ps: "healthParameters g = Some ps" "0 < length ps"
          and sg: "success g" by auto
        show ?thesis
          using auto_gemini_used [OF auto True g(1) sg ps] sg
          by (intro autoGemini [OF auto True used g sg]) (simp add: pre)
      next
        case unused: False
        with suff gs have insufficient: "\<not> success g \<or> healthParameters g = Some []"
          by (cases "success g") auto
        from unused have ns: "\<not> (geminiFirst env opts \<and> geminiSufficient env b m)" by simp
        obtain r w2 where r: "extractWithOCR env b m w0 = (Inr r, w2)" "methodName r = Ocr"
          and rs: "if success r
             then (\<exists>ps. healthParameters r = Some ps \<and> requiresManualEntry r = Some (ps = []))
             else healthParameters r = None \<or> healthParameters r = Some []"
          using extractWithOCR_shape [of env b m w0] by blast
        show ?thesis
        proof (cases "success r")
          case sr: True
          with rs obtain ps where ps: "healthParameters r = Some ps"
            "requiresManualEntry r = Some (ps = [])" by auto
          show ?thesis
            using auto_ocr_after_gemini_success [OF auto True g(1) insufficient r(1) sr ps(1)]
            by (intro autoOcrOk [OF auto ns _ r(2) sr ps]) (simp_all add: start pre r)
        next
          case f: False
          show ?thesis
            using auto_ocr_after_gemini_failure [OF auto True g(1) insufficient r(1) f]
            by (intro autoOcrFail [OF auto ns _ f]) (simp_all add: start pre r)
        qed
      qed
    qed
  qed
qed

section \<open>The concrete runs\<close>

lemma counts_long:
  "length longText = 70" "keywordHits longText = 0"
  "countMatches matchUnitPattern 0 longText = 0"
  "countMatches matchTablePattern 0 longText = 0"
  unfolding medicalTermCount_keywordHits [symmetric] by code_simp+

lemma counts_report:
  "length reportText = 64" "keywordHits reportText = 3"
  "countMatches matchUnitPattern 0 reportText = 3"
  "countMatches matchTablePattern 0 reportText = 3"
  unfolding medicalTermCount_keywordHits [symmetric] by code_simp+

lemma counts_padded: "keywordHits paddedText = 1"
  unfolding medicalTermCount_keywordHits [symmetric] by code_simp

lemma counts_blank:
  "keywordHits '''' = 0" "countMatches matchUnitPattern 0 '''' = 0"
  "countMatches matchTablePattern 0 '''' = 0"
  unfolding medicalTermCount_keywordHits [symmetric] by code_simp+

lemma counts_scan:
  "keywordHits ''scan'' = 0" "countMatches matchUnitPattern 0 ''scan'' = 0"
  "countMatches matchTablePattern 0 ''scan'' = 0"
  unfolding medicalTermCount_keywordHits [symmetric] by code_simp+

lemma counts_shortNote:
  "length shortNote = 40" "keywordHits shortNote = 0"
  "countMatches matchUnitPattern 0 shortNote = 0"
  "countMatches matchTablePattern 0 shortNote = 0"
  unfolding medicalTermCount_keywordHits [symmetric] by code_simp+

lemma counts_longNote:
  "length longNote = 52" "keywordHits longNote = 0"
  "countMatches matchUnitPattern 0 longNote = 0"
  "countMatches matchTablePattern 0 longNote = 0"
  unfolding medicalTermCount_keywordHits [symmetric] by code_simp+


lemma counts_levels:
  "length levelLine = 19" "length levelUnitLine = 19"
  "keywordHits levelLine = 0" "keywordHits levelUnitLine = 0"
  "countMatches matchUnitPattern 0 levelLine = 0"
  "countMatches matchUnitPattern 0 levelUnitLine = 1"
  "countMatches matchTablePattern 0 levelLine = 0"
  "countMatches matchTablePattern 0 levelUnitLine = 0"
  unfolding medicalTermCount_keywordHits [symmetric] by code_simp+

lemmas score_defs = total_calculateQualityScore breakdown_calculateQualityScore
  metrics_calculateQualityScore jsTimes_def jsPlus_def double_eval

lemma score_long:
  "total (calculateQualityScore longText 90) = 57"
  "medicalTermCount (metrics (calculateQualityScore longText 90)) = 0"
  by (simp_all add: score_defs counts_long)

lemma score_report:
  "total (calculateQualityScore reportText 90) = 2818268204315443 / 17592186044416"
  "medicalTermCount (metrics (calculateQualityScore reportText 90)) = 3"
  by (simp_all add: score_defs counts_report)

lemma score_padded:
  "medicalTermCount (metrics (calculateQualityScore paddedText 90)) = 1"
  by (simp add: score_defs counts_padded)

lemma score_blank:
  "total (calculateQualityScore '''' 0) = 0"
  unfolding total_calculateQualityScore breakdown_calculateQualityScore counts_blank
  by (simp add: jsTimes_def jsPlus_def double_eval)

lemma score_scan:
  "total (calculateQualityScore ''scan'' 10) = 5854679515581645 / 1125899906842624"
  unfolding total_calculateQualityScore breakdown_calculateQualityScore counts_scan
  by (simp add: jsTimes_def jsPlus_def double_eval)

lemma score_shortNote:
  "total (calculateQualityScore shortNote 72) = 2871044762448691 / 70368744177664"
  by (simp add: score_defs counts_shortNote)

lemma score_longNote:
  "total (calculateQualityScore longNote 63) = 5742089524897383 / 140737488355328"
  by (simp add: score_defs counts_longNote)

lemma text_long:
  "length (trim longText) = 70" "length longText = 70" "testParser longText = []"
  by code_simp+

lemma text_report:
  "length (trim reportText) = 64" "length reportText = 64"
  "testParser reportText = [glucoseParameter]"
  by code_simp+

lemma text_padded:
  "length (trim paddedText) = 17" "length paddedText = 57"
  "testParser paddedText = [glucoseParameter]"
  by code_simp+

lemma text_blank: "trim '' '' = ''''" "trim '''' = ''''"
  by code_simp+

lemmas eval_defs = testEnv_def testSharp_def io_defs sharpToBuffer_eq tesseractRecognize_eq
  deskewImage_def extractTextFromImageBuffer_def runVariant_def reduceBest_def
  PREPROCESSING_METHODS_def tick_def Let_def firstPass_def probeCalls_def scanCalls_def

lemma image_long:
  "extractTextFromImageBuffer envLong [7] w =
     (Inr longText, w\<lparr> now := now w + 7, calls := calls w @ firstPass @ scanCalls \<rparr>)"
  by (simp add: envLong_def eval_defs score_long text_long)

lemma image_report:
  "extractTextFromImageBuffer (envReport g) [7] w =
     (Inr reportText, w\<lparr> now := now w + 7, calls := calls w @ firstPass @ scanCalls \<rparr>)"
  by (simp add: envReport_def eval_defs score_report text_report)

lemma image_padded:
  "extractTextFromImageBuffer envPadded [7] w =
     (Inr paddedText, w\<lparr> now := now w + 7, calls := calls w @ firstPass @ scanCalls \<rparr>)"
  by (simp add: envPadded_def eval_defs score_padded text_padded)

lemma image_blank:
  "extractTextFromImageBuffer envBlank [7] w =
     (Inr '' '',
      w\<lparr> now := now w + 13, calls := calls w @ firstPass @ probeCalls @ scanCalls \<rparr>)"
  by (simp add: envBlank_def eval_defs score_blank)

lemma ocr_long:
  "extractWithOCR envLong [7] ''image/png'' w =
     (Inr \<lparr> success = False, methodName = Ocr, extractedText = Some longText,
            patientInfo = None, healthParameters = Some [], aiInsights = None,
            isScannedDocument = Some False, requiresManualEntry = Some True,
            metadata = Some \<lparr> meta_model = None, meta_processingTime = 7,
                               meta_confidence = None, meta_textLength = Some 70,
                               meta_parameterCount = 0 \<rparr>,
            error = None, processingTime = None, extractionLog = None \<rparr>,
      w\<lparr> now := now w + 7, calls := calls w @ firstPass @ scanCalls \<rparr>)"
proof -
  have t: "extractText envLong [7] ''image/png'' w =
      (Inr longText, w\<lparr> now := now w + 7, calls := calls w @ firstPass @ scanCalls \<rparr>)"
    by (simp add: extractText_def image_long)
  have p: "(if 50 < length (if length (trim longText) = 0 then '' '' else longText)
            then extractHealthParameters envLong
                   (if length (trim longText) = 0 then '' '' else longText)
            else Inr []) = Inr []"
    by (simp add: text_long envLong_def testEnv_def)
  show ?thesis
    using extractWithOCR_parsed [OF t refl p] by (simp add: text_long)
qed

lemma ocr_report:
  "extractWithOCR (envReport g) [7] ''image/png'' w =
     (Inr \<lparr> success = True, methodName = Ocr, extractedText = Some reportText,
            patientInfo = None, healthParameters = Some [glucoseParameter],
            aiInsights = None,
            isScannedDocument = Some False, requiresManualEntry = Some False,
            metadata = Some \<lparr> meta_model = None, meta_processingTime = 7,
                               meta_confidence = None, meta_textLength = Some 64,
                               meta_parameterCount = 1 \<rparr>,
            error = None, processingTime = None, extractionLog = None \<rparr>,
      w\<lparr> now := now w + 7, calls := calls w @ firstPass @ scanCalls \<rparr>)"
proof -
  have t: "extractText (envReport g) [7] ''image/png'' w =
      (Inr reportText, w\<lparr> now := now w + 7, calls := calls w @ firstPass @ scanCalls \<rparr>)"
    by (simp add: extractText_def image_report)
  have p: "(if 50 < length (if length (trim reportText) = 0 then '' '' else reportText)
            then extractHealthParameters (envReport g)
                   (if length (trim reportText) = 0 then '' '' else reportText)
            else Inr []) = Inr [glucoseParameter]"
    by (simp add: text_report envReport_def testEnv_def)
  show ?thesis
    using extractWithOCR_parsed [OF t refl p] by (simp add: text_report)
qed

lemma ocr_padded:
  "extractWithOCR envPadded [7] ''image/png'' w =
     (Inr \<lparr> success = True, methodName = Ocr, extractedText = Some paddedText,
            patientInfo = None, healthParameters = Some [glucoseParameter],
            aiInsights = None,
            isScannedDocument = Some True, requiresManualEntry = Some False,
            metadata = Some \<lparr> meta_model = None, meta_processingTime = 7,
                               meta_confidence = None, meta_textLength = Some 57,
                               meta_parameterCount = 1 \<rparr>,
            error = None, processingTime = None, extractionLog = None \<rparr>,
      w\<lparr> now := now w + 7, calls := calls w @ firstPass @ scanCalls \<rparr>)"
proof -
  have t: "extractText envPadded [7] ''image/png'' w =
      (Inr paddedText, w\<lparr> now := now w + 7, calls := calls w @ firstPass @ scanCalls \<rparr>)"
    by (simp add: extractText_def image_padded)
  have p: "(if 50 < length (if length (trim paddedText) = 0 then '' '' else paddedText)
            then extractHealthParameters envPadded
                   (if length (trim paddedText) = 0 then '' '' else paddedText)
            else Inr []) = Inr [glucoseParameter]"
    by (simp add: text_padded envPadded_def testEnv_def)
  show ?thesis
    using extractWithOCR_parsed [OF t refl p] by (simp add: text_padded)
qed

lemma gemini_down:
  "generateContent envLong b m = geminiDown"
  "generateContent envPadded b m = geminiDown"
  "generateContent envBlank b m = geminiDown"
  "generateContent (envReport g) b m = g"
  by (simp_all add: envLong_def envPadded_def envBlank_def envReport_def testEnv_def)

lemma gemini_first:
  "geminiFirst envLong autoOptions" "geminiFirst envPadded autoOptions"
  "geminiFirst envBlank autoOptions" "geminiFirst (envReport g) autoOptions"
  "autoMode autoOptions"
  by (simp_all add: geminiFirst_def autoMode_def autoOptions_def envLong_def envPadded_def
      envBlank_def envReport_def testEnv_def)

lemma gemini_insufficient:
  "\<not> geminiSufficient envLong b m" "\<not> geminiSufficient envPadded b m"
  "\<not> geminiSufficient envBlank b m" "\<not> geminiSufficient (envReport (geminiAnswer [])) b m"
  "geminiSufficient (envReport (geminiAnswer [glucoseParameter])) b m"
  by (simp_all add: geminiSufficient_def gemini_down geminiDown_def geminiAnswer_def)

lemma duration_one:
  "duration envLong c = 1" "duration envPadded c = 1" "duration envBlank c = 1"
  "duration (envReport g) c = 1"
  by (simp_all add: envLong_def envPadded_def envBlank_def envReport_def testEnv_def)

section \<open>The orchestrator: results, attempts and fallback\<close>

text \<open>
  C1, as amended. \<open>extractHealthData\<close> never throws: for every buffer, MIME type and
  options object it returns a result that carries the extraction log. When \<open>forceMethod\<close> is
  \<open>'ocr'\<close> the result is the result of the OCR method with the log added, with method
  \<open>'ocr'\<close> and no error in the log, whatever its success flag says. In every other mode a
  result that is not a success has method \<open>'failed'\<close>, no health parameters,
  \<open>requiresManualEntry = true\<close>, and the message of the error both in the result and in
  the log.
\<close>

theorem extractHealthData_returns_result:
  "\<exists>r w' l.
      extractHealthData env b m opts w = (Inr r, w')
    \<and> extractionLog r = Some l
    \<and> (if forceMethod opts = Some ''ocr''
        then methodName r = Ocr \<and> log_error l = None
           \<and> (\<exists>res. extractWithOCR env b m w = (Inr res, w')
                  \<and> r = res\<lparr> extractionLog := Some l \<rparr>)
        else if success r then methodName r \<noteq> Failed \<and> log_error l = None
        else methodName r = Failed \<and> healthParameters r = Some []
           \<and> requiresManualEntry r = Some True \<and> error r = log_error l
           \<and> log_error l \<in> {Some ''Gemini extraction failed (forced mode)'',
                               Some ''Both Gemini and OCR extraction failed''})"
proof (cases rule: extractHealthData_branches [of opts env b m w])
  case (forcedOcr res w1)
  then show ?thesis by simp
next
  case (forcedGeminiOk g)
  then show ?thesis by simp
next
  case (forcedGeminiFail g)
  then show ?thesis by (simp add: failureResult_def)
next
  case (autoGemini g)
  then show ?thesis by (simp add: autoMode_def)
next
  case (autoOcrOk res w2 ps)
  then show ?thesis by (simp add: autoMode_def)
next
  case (autoOcrFail res w2)
  then show ?thesis by (simp add: autoMode_def failureResult_def)
qed

text \<open>
  C1 as stated fails: with \<open>forceMethod = 'ocr'\<close>, recognized text of 70 characters and
  no parameter found, the OCR method reports a failure, and the orchestrator returns it
  with method \<open>'ocr'\<close> and no error in the log.
\<close>

theorem extractHealthData_forced_ocr_counterexample:
  "map_sum id (\<lambda>r. (success r, methodName r, map_option log_error (extractionLog r)))
     (fst (extractHealthData envLong [7] ''image/png'' forcedOcrOptions world0))
   = Inr (False, Ocr, Some None)"
proof -
  have f: "forceMethod forcedOcrOptions = Some ''ocr''"
    by (simp add: forcedOcrOptions_def)
  show ?thesis
    by (simp add: forced_ocr [OF f ocr_long])
qed

text \<open>
  C2. The code breaks the claim: with \<open>forceMethod = 'gemini'\<close> and an answer of Gemini
  that holds an empty parameter list, the result is a success with method \<open>'gemini'\<close>, no
  health parameters and no field \<open>requiresManualEntry\<close>; \<open>validateExtractionResults\<close>
  reports it as "No parameters extracted but manual entry not flagged".
\<close>

theorem forced_gemini_result_lacks_manual_entry:
  "map_sum id (\<lambda>r. (success r, methodName r, healthParameters r, requiresManualEntry r,
                    issues (validateExtractionResults r)))
     (fst (extractHealthData (envReport (geminiAnswer [])) [7] ''image/png''
             forcedGeminiOptions world0))
   = Inr (True, Gemini, Some [], None,
          [''No parameters extracted but manual entry not flagged''])"
proof -
  have f: "forceMethod forcedGeminiOptions = Some ''gemini''"
    by (simp add: forcedGeminiOptions_def)
  have g: "generateContent (envReport (geminiAnswer [])) [7] ''image/png'' =
      Inr \<lparr> parsed_extractedText = Some ''Glucose 90'', parsed_patientInfo = None,
            parsed_healthParameters = [], parsed_aiInsights = noInsights,
            parsed_confidence = Some (95 / 100) \<rparr>"
    by (simp add: gemini_down geminiAnswer_def)
  show ?thesis
    by (simp add: forced_gemini_success [OF f extractWithGemini_success [OF g]]
        validateExtractionResults_def)
qed

text \<open>
  C3. In automatic mode, with Gemini preferred and its API key configured, the result is
  the result of Gemini (with the log added, and nothing run after it) exactly when the
  call of Gemini succeeded and returned at least one health parameter. Otherwise, and so
  also when the call succeeded with no parameter, the OCR method is run next, the log
  holds the attempt of Gemini followed by the attempt of OCR, and the method of the
  result is not \<open>'gemini'\<close>.
\<close>

theorem auto_mode_gemini_result_iff:
  assumes "autoMode opts" and "geminiFirst env opts"
  shows "\<exists>g r w2 l.
      extractWithGemini env b m w = (Inr g, tick env (GeminiGenerate b m) w)
    \<and> extractHealthData env b m opts w = (Inr r, w2)
    \<and> extractionLog r = Some l
    \<and> (if success g \<and> (\<exists>ps. healthParameters g = Some ps \<and> 0 < length ps)
        then r = g\<lparr> extractionLog := Some l \<rparr> \<and> methodName r = Gemini
           \<and> w2 = tick env (GeminiGenerate b m) w
           \<and> map attempt_method (attempts l) = [Gemini]
        else methodName r \<noteq> Gemini
           \<and> (\<exists>res. extractWithOCR env b m (tick env (GeminiGenerate b m) w) = (Inr res, w2)
                  \<and> map attempt_method (attempts l) = [Gemini, Ocr]
                  \<and> map attempt_success (attempts l) = [success g, success res]))"
proof -
  obtain g where g: "extractWithGemini env b m w = (Inr g, tick env (GeminiGenerate b m) w)"
    using extractWithGemini_shape [of env b m w] by blast
  note suff = geminiSufficient_iff [OF g]
  from assms(2) g have pre: "geminiAttempts env b m opts w =
      [\<lparr> attempt_method = Gemini, attempt_success = success g,
         attempt_processingTime = map_option meta_processingTime (metadata g) \<rparr>]"
    and start: "ocrStart env b m opts w = tick env (GeminiGenerate b m) w"
    by (simp_all add: geminiAttempts_def ocrStart_def)
  from assms(1) have no: "forceMethod opts \<noteq> Some ''ocr''" "forceMethod opts \<noteq> Some ''gemini''"
    by (simp_all add: autoMode_def)
  show ?thesis
  proof (cases rule: extractHealthData_branches [of opts env b m w])
    case (forcedOcr res w1)
    with no show ?thesis by simp
  next
    case (forcedGeminiOk g')
    with no show ?thesis by simp
  next
    case (forcedGeminiFail g')
    with no show ?thesis by simp
  next
    case (autoGemini g')
    with g suff pre show ?thesis by simp
  next
    case (autoOcrOk res w2 ps)
    with g suff pre start assms(2) show ?thesis by simp
  next
    case (autoOcrFail res w2)
    with g suff pre start assms(2) show ?thesis by (simp add: failureResult_def)
  qed
qed

text \<open>
  The theorem at two inputs: Gemini answers with the glucose parameter and its result is
  returned; Gemini answers with no parameter and the OCR method, which finds the glucose
  parameter, gives the result.
\<close>

theorem auto_mode_gemini_result_iff_witness:
  "autoMode autoOptions
   \<and> geminiFirst (envReport (geminiAnswer [glucoseParameter])) autoOptions
   \<and> geminiFirst (envReport (geminiAnswer [])) autoOptions
   \<and> map_sum id (\<lambda>r. (methodName r, healthParameters r))
       (fst (extractHealthData (envReport (geminiAnswer [glucoseParameter])) [7] ''image/png''
               autoOptions world0))
     = Inr (Gemini, Some [glucoseParameter])
   \<and> map_sum id (\<lambda>r. (methodName r = Gemini,
                      map_option (\<lambda>l. (map attempt_method (attempts l),
                                        map attempt_success (attempts l)))
                        (extractionLog r)))
       (fst (extractHealthData (envReport (geminiAnswer [])) [7] ''image/png''
               autoOptions world0))
     = Inr (False, Some ([Gemini, Ocr], [True, True]))"
proof -
  let ?one = "envReport (geminiAnswer [glucoseParameter])"
  let ?none = "envReport (geminiAnswer [])"
  have g1: "generateContent ?one [7] ''image/png'' =
      Inr \<lparr> parsed_extractedText = Some ''Glucose 90'', parsed_patientInfo = None,
            parsed_healthParameters = [glucoseParameter], parsed_aiInsights = noInsights,
            parsed_confidence = Some (95 / 100) \<rparr>"
    by (simp add: gemini_down geminiAnswer_def)
  have g0: "generateContent ?none [7] ''image/png'' =
      Inr \<lparr> parsed_extractedText = Some ''Glucose 90'', parsed_patientInfo = None,
            parsed_healthParameters = [], parsed_aiInsights = noInsights,
            parsed_confidence = Some (95 / 100) \<rparr>"
    by (simp add: gemini_down geminiAnswer_def)
  have one: "map_sum id (\<lambda>r. (methodName r, healthParameters r))
       (fst (extractHealthData ?one [7] ''image/png'' autoOptions world0))
     = Inr (Gemini, Some [glucoseParameter])"
    using auto_mode_gemini_result_iff [OF gemini_first(5) gemini_first(4),
        of "geminiAnswer [glucoseParameter]" "[7]" "''image/png''" world0]
    by (auto simp: extractWithGemini_success [OF g1])
  have none: "map_sum id (\<lambda>r. (methodName r = Gemini,
                      map_option (\<lambda>l. (map attempt_method (attempts l),
                                        map attempt_success (attempts l)))
                        (extractionLog r)))
       (fst (extractHealthData ?none [7] ''image/png'' autoOptions world0))
     = Inr (False, Some ([Gemini, Ocr], [True, True]))"
  proof -
    from auto_mode_gemini_result_iff [OF gemini_first(5) gemini_first(4),
        of "geminiAnswer []" "[7]" "''image/png''" world0]
    obtain r w2 l res where
      r: "extractHealthData ?none [7] ''image/png'' autoOptions world0 = (Inr r, w2)"
        "extractionLog r = Some l" "methodName r \<noteq> Gemini"
        "extractWithOCR ?none [7] ''image/png''
           (tick ?none (GeminiGenerate [7] ''image/png'') world0) = (Inr res, w2)"
        "map attempt_method (attempts l) = [Gemini, Ocr]"
        "map attempt_success (attempts l) = [True, success res]"
      by (auto simp: extractWithGemini_success [OF g0])
    from r(4) have "success res"
      by (auto simp: ocr_report)
    with r show ?thesis by simp
  qed
  from one none show ?thesis by (simp add: gemini_first)
qed

text \<open>
  C4. For every input \<open>extractHealthData\<close> returns a result whose method is one of
  \<open>'gemini'\<close> (the AI method), \<open>'ocr'\<close> and \<open>'failed'\<close>. In automatic mode the log holds one
  or two attempts. With \<open>forceMethod = 'ocr'\<close> it holds exactly one attempt, of method
  \<open>'ocr'\<close>, and no call made during the extraction is a call of the Gemini model. With
  \<open>forceMethod = 'gemini'\<close> it holds exactly one attempt, of method \<open>'gemini'\<close>, the only
  call made is the call of the Gemini model, and the method of the result is not \<open>'ocr'\<close>.
\<close>

theorem extractHealthData_method_and_attempts:
  "\<exists>r w' l cs.
      extractHealthData env b m opts w = (Inr r, w')
    \<and> extractionLog r = Some l
    \<and> calls w' = calls w @ cs
    \<and> methodName r \<in> {Gemini, Ocr, Failed}
    \<and> (if forceMethod opts = Some ''ocr''
        then map attempt_method (attempts l) = [Ocr] \<and> list_all isOcrCall cs
           \<and> methodName r = Ocr
        else if forceMethod opts = Some ''gemini''
        then map attempt_method (attempts l) = [Gemini] \<and> cs = [GeminiGenerate b m]
           \<and> methodName r \<noteq> Ocr
        else 1 \<le> length (attempts l) \<and> length (attempts l) \<le> 2)"
proof -
  have oneOfThree: "methodName r \<in> {Gemini, Ocr, Failed}" for r :: result
    by (cases "methodName r") simp_all
  have pre: "length (geminiAttempts env b m opts w) \<le> 1"
    by (simp add: geminiAttempts_def split: sum.splits)
  show ?thesis
  proof (cases rule: extractHealthData_branches [of opts env b m w])
    case (forcedOcr res w1)
    obtain cs where "calls w1 = calls w @ cs" "list_all isOcrCall cs"
      using issuesOnlyD [OF issuesOnly_extractWithOCR, of env b m w] forcedOcr(2) by auto
    with forcedOcr show ?thesis by (simp add: oneOfThree)
  next
    case (forcedGeminiOk g)
    then show ?thesis by simp
  next
    case (forcedGeminiFail g)
    then show ?thesis by (simp add: failureResult_def)
  next
    case (autoGemini g)
    then show ?thesis by (simp add: autoMode_def geminiAttempts_def)
  next
    case (autoOcrOk res w2 ps)
    obtain cs where "calls w2 = calls (ocrStart env b m opts w) @ cs"
      using issuesOnlyD [OF issuesOnly_extractWithOCR, of env b m "ocrStart env b m opts w"]
        autoOcrOk(3) by auto
    with autoOcrOk pre show ?thesis by (simp add: autoMode_def ocrStart_def oneOfThree)
  next
    case (autoOcrFail res w2)
    obtain cs where "calls w2 = calls (ocrStart env b m opts w) @ cs"
      using issuesOnlyD [OF issuesOnly_extractWithOCR, of env b m "ocrStart env b m opts w"]
        autoOcrFail(3) by auto
    with autoOcrFail pre show ?thesis by (simp add: autoMode_def ocrStart_def failureResult_def)
  qed
qed

section \<open>The image pipeline\<close>

lemma snd_catchIO_returnIO: "snd (catchIO m (\<lambda>e. returnIO x) s) = snd (m s)"
  by (simp add: catchIO_def returnIO_def split: prod.splits sum.splits)

lemma extractTextFromImageBuffer_after_deskew:
  assumes "deskewImage env buffer w = (Inr d, w1)"
  shows "\<exists>rest. calls (snd (extractTextFromImageBuffer env buffer w)) =
           calls w1 @ Sharp QuickScanPrep d # rest"
proof -
  let ?k = "\<lambda>quickBuffer.
        bindIO (tesseractRecognize env AutoOnly quickBuffer) (\<lambda>(quickText, quickConf).
          let quickScore = calculateQualityScore quickText quickConf in
          if 150 < total quickScore \<and> 3 < medicalTermCount (metrics quickScore)
          then returnIO quickText
          else
            bindIO (mapIO (runVariant env d) (take 2 PREPROCESSING_METHODS))
              (\<lambda>results.
            bindIO (liftE (reduceBest results)) (\<lambda>bestResult.
              returnIO (if 10 < length (variant_text bestResult)
                        then variant_text bestResult else '' ''))))"
  let ?w2 = "tick env (Sharp QuickScanPrep d) w1"
  have k: "issuesOnly isOcrCall (?k qb)" for qb
    unfolding Let_def
    by (intro issuesOnly_intros issuesOnly_tesseractRecognize issuesOnly_runVariant)
  have run: "snd (extractTextFromImageBuffer env buffer w) =
      snd (bindIO (sharpToBuffer env QuickScanPrep d) ?k w1)"
    unfolding extractTextFromImageBuffer_def snd_catchIO_returnIO
    using assms by (simp add: bindIO_def)
  show ?thesis
  proof (cases "sharp env QuickScanPrep d")
    case (Inl e)
    then show ?thesis
      by (simp add: run bindIO_def sharpToBuffer_eq)
  next
    case (Inr qb)
    from issuesOnlyD [OF k, of qb ?w2]
    obtain cs where "calls (snd (?k qb ?w2)) = calls ?w2 @ cs" by blast
    with Inr show ?thesis
      by (simp add: run bindIO_def sharpToBuffer_eq)
  qed
qed

lemma deskewImage_eval:
  assumes first: "recognize env AutoOnlyDefaultEngine buffer = Inr (t0, c0)"
    and probes: "length t0 < 50 \<Longrightarrow>
         sharp env (Rotate 90) buffer = Inr b90 \<and> recognize env AutoOnly b90 = Inr (t90, c90)
       \<and> sharp env (Rotate 180) buffer = Inr b180 \<and> recognize env AutoOnly b180 = Inr (t180, c180)
       \<and> sharp env (Rotate 270) buffer = Inr b270 \<and> recognize env AutoOnly b270 = Inr (t270, c270)"
  shows "fst (deskewImage env buffer w) =
      Inr (if 50 \<le> length t0 then buffer
           else if max (length t0) (max (length t90) (length t180)) < length t270 then b270
           else if max (length t0) (length t90) < length t180 then b180
           else if length t0 < length t90 then b90
           else buffer)
    \<and> calls (snd (deskewImage env buffer w)) =
        calls w @ [TesseractRecognize AutoOnlyDefaultEngine buffer]
        @ (if 50 \<le> length t0 then []
           else [Sharp (Rotate 90) buffer, TesseractRecognize AutoOnly b90,
                 Sharp (Rotate 180) buffer, TesseractRecognize AutoOnly b180,
                 Sharp (Rotate 270) buffer, TesseractRecognize AutoOnly b270]
              @ (if max (length t0) (max (length t90) (length t180)) < length t270
                 then [Sharp (Rotate 270) buffer]
                 else if max (length t0) (length t90) < length t180
                 then [Sharp (Rotate 180) buffer]
                 else if length t0 < length t90 then [Sharp (Rotate 90) buffer]
                 else []))"
proof (cases "length t0 < 50")
  case False
  with first show ?thesis
    by (simp add: deskewImage_def io_defs tesseractRecognize_eq)
next
  case True
  note p = probes [OF True]
  from True first p show ?thesis
    by (simp add: deskewImage_def io_defs tesseractRecognize_eq sharpToBuffer_eq)
qed

text \<open>
  C5. Let the first OCR pass on the unmodified buffer return \<open>t0\<close>, and, when \<open>t0\<close> has
  fewer than 50 characters, let the buffers rotated by 90, 180 and 270 degrees be
  recognized as \<open>t90\<close>, \<open>t180\<close> and \<open>t270\<close>. Then with 50 characters or more
  \<open>deskewImage\<close> returns the buffer unchanged after that single pass. With fewer, each
  of the three rotations is made and recognized, in this order, and the buffer returned is
  the rotation whose text is strictly longer than the unrotated text and than the texts
  of the rotations tried before it, and at least as long as those tried after it; it is
  the buffer itself when no rotation beats the unrotated text. Only when a rotation wins
  is it applied once more, to build the buffer returned. The image pipeline hands the
  buffer returned to the quick scan, its first step after \<open>deskewImage\<close>.
\<close>

theorem deskewImage_selects_longest:
  assumes first: "recognize env AutoOnlyDefaultEngine buffer = Inr (t0, c0)"
    and probes: "length t0 < 50 \<Longrightarrow>
         sharp env (Rotate 90) buffer = Inr b90 \<and> recognize env AutoOnly b90 = Inr (t90, c90)
       \<and> sharp env (Rotate 180) buffer = Inr b180 \<and> recognize env AutoOnly b180 = Inr (t180, c180)
       \<and> sharp env (Rotate 270) buffer = Inr b270 \<and> recognize env AutoOnly b270 = Inr (t270, c270)"
    and chosen: "d =
          (if 50 \<le> length t0 then buffer
           else if max (length t0) (max (length t90) (length t180)) < length t270 then b270
           else if max (length t0) (length t90) < length t180 then b180
           else if length t0 < length t90 then b90
           else buffer)"
  shows "fst (deskewImage env buffer w) = Inr d
    \<and> calls (snd (deskewImage env buffer w)) =
        calls w @ [TesseractRecognize AutoOnlyDefaultEngine buffer]
        @ (if 50 \<le> length t0 then []
           else [Sharp (Rotate 90) buffer, TesseractRecognize AutoOnly b90,
                 Sharp (Rotate 180) buffer, TesseractRecognize AutoOnly b180,
                 Sharp (Rotate 270) buffer, TesseractRecognize AutoOnly b270]
              @ (if max (length t0) (max (length t90) (length t180)) < length t270
                 then [Sharp (Rotate 270) buffer]
                 else if max (length t0) (length t90) < length t180
                 then [Sharp (Rotate 180) buffer]
                 else if length t0 < length t90 then [Sharp (Rotate 90) buffer]
                 else []))
    \<and> (\<exists>rest. calls (snd (extractTextFromImageBuffer env buffer w)) =
          calls (snd (deskewImage env buffer w)) @ Sharp QuickScanPrep d # rest)"
proof -
  note eval = deskewImage_eval [OF first probes, of w]
  from eval chosen have "deskewImage env buffer w = (Inr d, snd (deskewImage env buffer w))"
    by (simp add: prod_eq_iff)
  from extractTextFromImageBuffer_after_deskew [OF this] eval chosen
  show ?thesis by simp
qed

text \<open>
  The theorem at a buffer whose first pass yields one character and whose rotation by 180
  degrees yields the 64 characters of the report: the rotation by 180 degrees is returned.
\<close>

theorem deskewImage_selects_longest_witness:
  "recognize envRotated AutoOnlyDefaultEngine [7] = Inr (''x'', 50)
   \<and> recognize envRotated AutoOnly [180, 7] = Inr (reportText, 50)
   \<and> fst (deskewImage envRotated [7] world0) = Inr [180, 7]
   \<and> calls (snd (deskewImage envRotated [7] world0)) =
       firstPass @ probeCalls @ [Sharp (Rotate 180) [7]]"
proof -
  have first: "recognize envRotated AutoOnlyDefaultEngine [7] = Inr (''x'', 50)"
    by (simp add: envRotated_def testEnv_def)
  have probes:
    "sharp envRotated (Rotate 90) [7] = Inr [90, 7]
      \<and> recognize envRotated AutoOnly [90, 7] = Inr (''x'', 50)
      \<and> sharp envRotated (Rotate 180) [7] = Inr [180, 7]
      \<and> recognize envRotated AutoOnly [180, 7] = Inr (reportText, 50)
      \<and> sharp envRotated (Rotate 270) [7] = Inr [27, 7]
      \<and> recognize envRotated AutoOnly [27, 7] = Inr (''x'', 50)"
    by (simp add: envRotated_def testEnv_def testSharp_def)
  from deskewImage_selects_longest [OF first probes refl, of world0] first probes
  show ?thesis
    by (simp add: text_report world0_def firstPass_def probeCalls_def)
qed

text \<open>
  C6. When the heavy preprocessing ladder runs (the deskewed buffer \<open>d\<close> was prepared
  and recognized by the quick scan, and the quick scan was not accepted), the two
  preprocessing methods are run on \<open>d\<close>. Each yields the text recognized from its own
  prepared buffer, scored by \<open>calculateQualityScore\<close> on that text and the confidence of
  that recognition (the empty text with score 0 when it throws). The result selected is
  the second when its score total, a double, is strictly greater than that of the first,
  and the first otherwise; no result has a greater score total. The pipeline returns the
  text selected when it has more than 10 characters and the single space \<open>" "\<close>
  otherwise.
\<close>

theorem extractTextFromImageBuffer_selects_best:
  assumes deskew: "deskewImage env buffer w = (Inr d, w1)"
    and quickPrep: "sharp env QuickScanPrep d = Inr qb"
    and quickScan: "recognize env AutoOnly qb = Inr (qt, qc)"
    and ladder: "\<not> (150 < total (calculateQualityScore qt qc)
               \<and> 3 < medicalTermCount (metrics (calculateQualityScore qt qc)))"
  shows "\<exists>r1 r2 best w3.
      r1 = variantOutcome env d (''High-Quality Medical'', HighQualityMedicalPrep)
    \<and> r2 = variantOutcome env d (''Adaptive CLAHE'', AdaptiveClahePrep)
    \<and> mapIO (runVariant env d) (take 2 PREPROCESSING_METHODS)
        (tick env (TesseractRecognize AutoOnly qb) (tick env (Sharp QuickScanPrep d) w1))
        = (Inr [r1, r2], w3)
    \<and> reduceBest [r1, r2] = Inr best
    \<and> best = (if variant_score_total r1 < variant_score_total r2 then r2 else r1)
    \<and> (\<forall>r \<in> set [r1, r2]. variant_score_total r \<le> variant_score_total best)
    \<and> extractTextFromImageBuffer env buffer w =
        (Inr (if 10 < length (variant_text best) then variant_text best else '' ''), w3)"
proof -
  let ?w2 = "tick env (TesseractRecognize AutoOnly qb) (tick env (Sharp QuickScanPrep d) w1)"
  let ?r1 = "variantOutcome env d (''High-Quality Medical'', HighQualityMedicalPrep)"
  let ?r2 = "variantOutcome env d (''Adaptive CLAHE'', AdaptiveClahePrep)"
  let ?best = "if variant_score_total ?r1 < variant_score_total ?r2 then ?r2 else ?r1"
  from mapIO_runVariant_outcome [of env d "take 2 PREPROCESSING_METHODS" ?w2]
  obtain w3 where
    run: "mapIO (runVariant env d) (take 2 PREPROCESSING_METHODS) ?w2 = (Inr [?r1, ?r2], w3)"
    by (auto simp add: PREPROCESSING_METHODS_def)
  have best: "reduceBest [?r1, ?r2] = Inr ?best"
    by (simp add: reduceBest_def)
  from deskew quickPrep quickScan ladder run best
  have out: "extractTextFromImageBuffer env buffer w =
      (Inr (if 10 < length (variant_text ?best) then variant_text ?best else '' ''), w3)"
    by (auto simp add: extractTextFromImageBuffer_def io_defs sharpToBuffer_eq
        tesseractRecognize_eq Let_def)
  from reduceBest_highest [OF best]
  have highest: "\<forall>r \<in> set [?r1, ?r2]. variant_score_total r \<le> variant_score_total ?best"
    by blast
  from run best highest out show ?thesis
    by (intro exI [of _ ?r1] exI [of _ ?r2] exI [of _ ?best] exI [of _ w3] conjI refl)
qed

text \<open>
  The example of the specification: of a variant that scores 120 and a variant that
  scores 95, the first is selected.
\<close>

lemma reduceBest_example:
  "reduceBest [\<lparr> variant_text = ''text of A'', variant_score_total = 120,
                 variant_method = ''A'' \<rparr>,
               \<lparr> variant_text = ''text of B'', variant_score_total = 95,
                 variant_method = ''B'' \<rparr>]
   = Inr \<lparr> variant_text = ''text of A'', variant_score_total = 120,
           variant_method = ''A'' \<rparr>"
  by (simp add: reduceBest_def)

text \<open>
  The theorem at a buffer for which the first method reads 40 characters at confidence 72
  and the second reads 52 characters at confidence 63, neither with a keyword, a unit or
  a table row. The exact sums \<open>12 + 28.8\<close> and \<open>15.6 + 25.2\<close> are equal; in double
  precision the first total is \<open>40.8\<close> and the second is \<open>40.800000000000004\<close>, one unit
  in the last place above it, and the pipeline returns the text of the second method.
\<close>

theorem extractTextFromImageBuffer_selects_best_witness:
  "sharp envVariants QuickScanPrep [7] = Inr [7]
   \<and> recognize envVariants AutoOnly [7] = Inr (''scan'', 10)
   \<and> total (calculateQualityScore ''scan'' 10) = 5854679515581645 / 1125899906842624
   \<and> variantOutcome envVariants [7] (''High-Quality Medical'', HighQualityMedicalPrep) =
       \<lparr> variant_text = shortNote,
         variant_score_total = 2871044762448691 / 70368744177664,
         variant_method = ''High-Quality Medical'' \<rparr>
   \<and> variantOutcome envVariants [7] (''Adaptive CLAHE'', AdaptiveClahePrep) =
       \<lparr> variant_text = longNote,
         variant_score_total = 5742089524897383 / 140737488355328,
         variant_method = ''Adaptive CLAHE'' \<rparr>
   \<and> length shortNote = 40 \<and> length longNote = 52
   \<and> fst (extractTextFromImageBuffer envVariants [7] world0) = Inr longNote"
proof -
  let ?w1 = "\<lparr> now = 7, calls = firstPass @ probeCalls \<rparr>"
  have deskew: "deskewImage envVariants [7] world0 = (Inr [7], ?w1)"
    by (simp add: envVariants_def world0_def eval_defs)
  have quickPrep: "sharp envVariants QuickScanPrep [7] = Inr [7]"
    by (simp add: envVariants_def testEnv_def testSharp_def)
  have quickScan: "recognize envVariants AutoOnly [7] = Inr (''scan'', 10)"
    by (simp add: envVariants_def testEnv_def)
  have ladder: "\<not> (150 < total (calculateQualityScore ''scan'' 10)
      \<and> 3 < medicalTermCount (metrics (calculateQualityScore ''scan'' 10)))"
    by (simp add: score_scan)
  have first: "variantOutcome envVariants [7] (''High-Quality Medical'', HighQualityMedicalPrep) =
      \<lparr> variant_text = shortNote,
        variant_score_total = 2871044762448691 / 70368744177664,
        variant_method = ''High-Quality Medical'' \<rparr>"
    by (simp add: variantOutcome_def envVariants_def testEnv_def testSharp_def
        score_shortNote)
  have second: "variantOutcome envVariants [7] (''Adaptive CLAHE'', AdaptiveClahePrep) =
      \<lparr> variant_text = longNote,
        variant_score_total = 5742089524897383 / 140737488355328,
        variant_method = ''Adaptive CLAHE'' \<rparr>"
    by (simp add: variantOutcome_def envVariants_def testEnv_def testSharp_def
        score_longNote)
  from extractTextFromImageBuffer_selects_best [OF deskew quickPrep quickScan ladder]
  obtain best w3 where
    best: "best =
      (if variant_score_total
            (variantOutcome envVariants [7] (''High-Quality Medical'', HighQualityMedicalPrep))
          < variant_score_total
              (variantOutcome envVariants [7] (''Adaptive CLAHE'', AdaptiveClahePrep))
       then variantOutcome envVariants [7] (''Adaptive CLAHE'', AdaptiveClahePrep)
       else variantOutcome envVariants [7] (''High-Quality Medical'', HighQualityMedicalPrep))"
    and out: "extractTextFromImageBuffer envVariants [7] world0 =
        (Inr (if 10 < length (variant_text best) then variant_text best else '' ''), w3)"
    by blast
  from best first second have "variant_text best = longNote"
    by simp
  with out quickPrep quickScan first second show ?thesis
    by (simp add: counts_shortNote counts_longNote score_scan)
qed

section \<open>The PDF text layer\<close>

text \<open>
  C7, as amended. \<open>extractTextFromPDFBuffer\<close> never propagates an error of the PDF
  parser: when parsing the text layer throws, it returns the single space \<open>" "\<close> right
  after the call of the parser, without running the image OCR pipeline. The image OCR
  pipeline is run on the original buffer when the parser returns a text of at most 100
  characters after trimming; a longer text is returned as it is.
\<close>

theorem extractTextFromPDFBuffer_parse_failure:
  "extractTextFromPDFBuffer env b w =
     (case pdfParse env b of
        Inl e \<Rightarrow> (Inr '' '', tick env (PdfParse b) w)
      | Inr t \<Rightarrow>
          if 100 < length (trim t) then (Inr t, tick env (PdfParse b) w)
          else extractTextFromImageBuffer env b (tick env (PdfParse b) w))"
  by (rule extractTextFromPDFBuffer_cases)

text \<open>
  C7 as stated fails: in an environment where the parser throws and the image OCR
  pipeline would read the report from the same buffer, the extractor returns \<open>" "\<close>, and the
  call of the parser is the only call made.
\<close>

theorem extractTextFromPDFBuffer_counterexample:
  "pdfParse (envReport geminiDown) [7] = Inl ''Invalid PDF structure''
   \<and> fst (extractTextFromImageBuffer (envReport geminiDown) [7] world0) = Inr reportText
   \<and> extractTextFromPDFBuffer (envReport geminiDown) [7] world0 =
       (Inr '' '', \<lparr> now = 1, calls = [PdfParse [7]] \<rparr>)"
proof -
  have p: "pdfParse (envReport geminiDown) [7] = Inl ''Invalid PDF structure''"
    by (simp add: envReport_def testEnv_def)
  show ?thesis
    by (simp add: p image_report extractTextFromPDFBuffer_cases tick_def duration_one world0_def)
qed

section \<open>Processing times in the log\<close>

text \<open>
  C8. The code breaks the claim. With \<open>forceMethod = 'ocr'\<close> the OCR method measures 7
  milliseconds and the attempt in the log holds no processing time. In automatic mode
  with Gemini failing, the attempt of Gemini holds no processing time either, and only the
  attempt of OCR holds one.
\<close>

theorem attempts_without_processing_time:
  "map_sum id (\<lambda>r. (map_option meta_processingTime (metadata r),
                    map_option (\<lambda>l. map attempt_processingTime (attempts l)) (extractionLog r)))
     (fst (extractHealthData envLong [7] ''image/png'' forcedOcrOptions world0))
   = Inr (Some 7, Some [None])
   \<and> map_sum id (\<lambda>r. map_option (\<lambda>l. map attempt_processingTime (attempts l))
                       (extractionLog r))
     (fst (extractHealthData envPadded [7] ''image/png'' autoOptions world0))
   = Inr (Some [None, Some 7])"
proof -
  have f: "forceMethod forcedOcrOptions = Some ''ocr''"
    by (simp add: forcedOcrOptions_def)
  have g: "generateContent envPadded [7] ''image/png'' = Inl ''fetch failed''"
    by (simp add: gemini_down geminiDown_def)
  have forced: "map_sum id (\<lambda>r. (map_option meta_processingTime (metadata r),
                    map_option (\<lambda>l. map attempt_processingTime (attempts l)) (extractionLog r)))
     (fst (extractHealthData envLong [7] ''image/png'' forcedOcrOptions world0))
   = Inr (Some 7, Some [None])"
    by (simp add: forced_ocr [OF f ocr_long])
  have auto: "map_sum id (\<lambda>r. map_option (\<lambda>l. map attempt_processingTime (attempts l))
                       (extractionLog r))
     (fst (extractHealthData envPadded [7] ''image/png'' autoOptions world0))
   = Inr (Some [None, Some 7])"
    by (simp add: auto_ocr_after_gemini_success [OF gemini_first(5) gemini_first(2)
          extractWithGemini_failure [OF g] _ ocr_padded])
  from forced auto show ?thesis by simp
qed

section \<open>The quality score\<close>



text \<open>
  The total itself is a rounded sum, so a further match need not move it by exactly 12:
  at confidence 1, the line of 19 characters scores \<open>6.1000000000000005\<close> without the
  unit and \<open>18.099999999999998\<close> with it.
\<close>

lemma calculateQualityScore_rounded_sum:
  "total (calculateQualityScore levelLine 1) = 6867989431740007 / 1125899906842624"
  "total (calculateQualityScore levelUnitLine 1) = 5094697078462873 / 281474976710656"
  "units (breakdown (calculateQualityScore levelUnitLine 1))
     - units (breakdown (calculateQualityScore levelLine 1)) = 12"
  "total (calculateQualityScore levelUnitLine 1) - total (calculateQualityScore levelLine 1)
     < 12"
  by (simp_all add: score_defs counts_levels)

section \<open>Success of the OCR method and the final method\<close>

text \<open>
  C10, as amended. Let the text extractor return \<open>t\<close> and let the parser, where it is
  called, return the parameters \<open>ps\<close> (it is called when the text kept has more than 50
  characters, untrimmed). Then the OCR method reports success exactly when \<open>ps\<close> is not
  empty or \<open>t\<close> has fewer than 50 characters after trimming. In automatic mode, when the
  OCR method is reached: a text of 50 characters or more after trimming with no parameter
  gives a result of method \<open>'failed'\<close>; every other text gives a result of method
  \<open>'ocr'\<close>, whose \<open>requiresManualEntry\<close> is true exactly when \<open>ps\<close> is empty, which is
  always the case for a text of at most 50 characters.
\<close>

theorem extractWithOCR_success_and_finalization:
  assumes "autoMode opts"
    and "\<not> (geminiFirst env opts \<and> geminiSufficient env b m)"
    and "extractText env b m (ocrStart env b m opts w) = (Inr t, w2)"
    and "extracted = (if length (trim t) = 0 then '' '' else t)"
    and "(if 50 < length extracted then extractHealthParameters env extracted else Inr [])
           = Inr ps"
  shows "\<exists>res r.
      extractWithOCR env b m (ocrStart env b m opts w) = (Inr res, w2)
    \<and> success res = (0 < length ps \<or> length (trim t) < 50)
    \<and> healthParameters res = Some ps
    \<and> extractHealthData env b m opts w = (Inr r, w2)
    \<and> (if length ps = 0 \<and> 50 \<le> length (trim t) then methodName r = Failed
        else methodName r = Ocr \<and> healthParameters r = Some ps
           \<and> requiresManualEntry r = Some (length ps = 0))
    \<and> (50 < length t \<or> length ps = 0)"
proof -
  note ocr = extractWithOCR_parsed [OF assms(3,4,5)]
  from assms(4,5) have short: "50 < length t \<or> length ps = 0"
    by (auto split: if_splits)
  from assms(1) have no: "forceMethod opts \<noteq> Some ''ocr''" "forceMethod opts \<noteq> Some ''gemini''"
    by (simp_all add: autoMode_def)
  show ?thesis
  proof (cases rule: extractHealthData_branches [of opts env b m w])
    case (forcedOcr res w1)
    with no show ?thesis by simp
  next
    case (forcedGeminiOk g')
    with no show ?thesis by simp
  next
    case (forcedGeminiFail g')
    with no show ?thesis by simp
  next
    case (autoGemini g')
    with assms(2) show ?thesis by simp
  next
    case (autoOcrOk res w2' ps')
    with ocr short show ?thesis by auto
  next
    case (autoOcrFail res w2')
    with ocr short show ?thesis by (auto simp: failureResult_def)
  qed
qed

text \<open>
  The theorem at two inputs, with Gemini failing: 70 recognized characters with no
  parameter end as \<open>'failed'\<close>; a blank page ends as \<open>'ocr'\<close> with
  \<open>requiresManualEntry = true\<close>.
\<close>

theorem extractWithOCR_success_and_finalization_witness:
  "autoMode autoOptions
   \<and> \<not> (geminiFirst envLong autoOptions \<and> geminiSufficient envLong [7] ''image/png'')
   \<and> \<not> (geminiFirst envBlank autoOptions \<and> geminiSufficient envBlank [7] ''image/png'')
   \<and> length (trim longText) = 70
   \<and> map_sum id methodName
       (fst (extractHealthData envLong [7] ''image/png'' autoOptions world0)) = Inr Failed
   \<and> map_sum id (\<lambda>r. (methodName r, healthParameters r, requiresManualEntry r))
       (fst (extractHealthData envBlank [7] ''image/png'' autoOptions world0))
     = Inr (Ocr, Some [], Some True)"
proof -
  let ?startLong = "ocrStart envLong [7] ''image/png'' autoOptions world0"
  let ?startBlank = "ocrStart envBlank [7] ''image/png'' autoOptions world0"
  have tl: "extractText envLong [7] ''image/png'' ?startLong =
      (Inr longText, ?startLong\<lparr> now := now ?startLong + 7,
                                 calls := calls ?startLong @ firstPass @ scanCalls \<rparr>)"
    by (simp add: extractText_def image_long)
  have pl: "(if 50 < length (if length (trim longText) = 0 then '' '' else longText)
            then extractHealthParameters envLong
                   (if length (trim longText) = 0 then '' '' else longText)
            else Inr []) = Inr []"
    by (simp add: text_long envLong_def testEnv_def)
  have tb: "extractText envBlank [7] ''image/png'' ?startBlank =
      (Inr '' '', ?startBlank\<lparr> now := now ?startBlank + 13,
                               calls := calls ?startBlank @ firstPass @ probeCalls @ scanCalls \<rparr>)"
    by (simp add: extractText_def image_blank)
  have pb: "(if 50 < length (if length (trim '' '') = 0 then '' '' else '' '')
            then extractHealthParameters envBlank
                   (if length (trim '' '') = 0 then '' '' else '' '')
            else Inr []) = Inr []"
    by simp
  have long: "map_sum id methodName
       (fst (extractHealthData envLong [7] ''image/png'' autoOptions world0)) = Inr Failed"
    using extractWithOCR_success_and_finalization
      [OF gemini_first(5) _ tl refl pl] gemini_insufficient(1)
    by (auto simp: text_long)
  have blank: "map_sum id (\<lambda>r. (methodName r, healthParameters r, requiresManualEntry r))
       (fst (extractHealthData envBlank [7] ''image/png'' autoOptions world0))
     = Inr (Ocr, Some [], Some True)"
    using extractWithOCR_success_and_finalization
      [OF gemini_first(5) _ tb refl pb] gemini_insufficient(3)
    by (auto simp: text_blank)
  from long blank show ?thesis
    by (simp add: gemini_first gemini_insufficient text_long)
qed

text \<open>
  C10 as stated fails: a recognized text of 17 characters followed by 40 line feeds has
  fewer than 50 characters after trimming and more than 50 before, so the parser is run
  on it; with the glucose parameter found, the result has method \<open>'ocr'\<close>, is marked as a
  scanned document, and has \<open>requiresManualEntry = false\<close>.
\<close>

theorem extractWithOCR_near_empty_counterexample:
  "length (trim paddedText) = 17
   \<and> map_sum id (\<lambda>r. (methodName r, isScannedDocument r, healthParameters r,
                      requiresManualEntry r))
       (fst (extractHealthData envPadded [7] ''image/png'' autoOptions world0))
     = Inr (Ocr, Some True, Some [glucoseParameter], Some False)"
proof -
  have g: "generateContent envPadded [7] ''image/png'' = Inl ''fetch failed''"
    by (simp add: gemini_down geminiDown_def)
  show ?thesis
    by (simp add: text_padded auto_ocr_after_gemini_success [OF gemini_first(5) gemini_first(2)
          extractWithGemini_failure [OF g] _ ocr_padded])
qed


end
